theory Spec2Isabelle
  imports Main "HOL-Library.Char_ord" "HOL-Library.List_Lexorder" "HOL-Library.AList"
    "HOL-Library.Multiset"
begin

section \<open>Strings, byte arrays and sorting\<close>

text \<open>
  A \<^verbatim>\<open>QString\<close> is a \<^typ>\<open>string\<close>; \<^verbatim>\<open>operator<\<close> on it is the lexicographic
  order of its code units, here the order of \<^typ>\<open>char list\<close>. A \<^verbatim>\<open>QByteArray\<close> is a
  \<^typ>\<open>string\<close> as well.
\<close>

type_synonym qstring = string
type_synonym bytes = string

text \<open>\<^verbatim>\<open>QString("%1/%2").arg(a, b)\<close>: both place markers are replaced in one pass.\<close>

definition arg2 :: "qstring \<Rightarrow> qstring \<Rightarrow> qstring" where
  "arg2 a b = a @ ''/'' @ b"

text \<open>
  \<^verbatim>\<open>std::sort(v.begin(), v.end(), std::greater<QString>())\<close>: the descending
  arrangement of the list. Equal strings are indistinguishable, so the result does not
  depend on the stability of the algorithm.
\<close>

definition sort_desc :: "qstring list \<Rightarrow> qstring list" where
  "sort_desc xs = rev (sort xs)"

definition sorted_desc :: "qstring list \<Rightarrow> bool" where
  "sorted_desc xs = sorted (rev xs)"

text \<open>
  \<^verbatim>\<open>QString::split(sep)\<close> with the default \<^verbatim>\<open>KeepEmptyParts\<close>: the empty string
  splits into one empty part.
\<close>

fun split :: "char \<Rightarrow> qstring \<Rightarrow> qstring list" where
  "split sep [] = [[]]"
| "split sep (c # cs) =
     (if c = sep then [] # split sep cs
      else (case split sep cs of
              [] \<Rightarrow> [[c]]
            | w # ws \<Rightarrow> (c # w) # ws))"

section \<open>JSON values\<close>

datatype json =
    JUndefined
  | JNull
  | JBool bool
  | JNumber int
  | JString qstring
  | JArray "json list"
  | JObject "(qstring \<times> json) list"

type_synonym jobject = "(qstring \<times> json) list"

text \<open>\<^verbatim>\<open>QJsonObject::operator[]\<close>, \<^verbatim>\<open>contains\<close> and the \<^verbatim>\<open>QJsonValue\<close> conversions.\<close>

definition jvalue :: "jobject \<Rightarrow> qstring \<Rightarrow> json" where
  "jvalue obj k = (case map_of obj k of None \<Rightarrow> JUndefined | Some v \<Rightarrow> v)"

definition jcontains :: "jobject \<Rightarrow> qstring \<Rightarrow> bool" where
  "jcontains obj k = (map_of obj k \<noteq> None)"

fun toObject :: "json \<Rightarrow> jobject" where
  "toObject (JObject kvs) = kvs"
| "toObject _ = []"

fun toArray :: "json \<Rightarrow> json list" where
  "toArray (JArray xs) = xs"
| "toArray _ = []"

fun toString :: "json \<Rightarrow> qstring" where
  "toString (JString s) = s"
| "toString _ = []"

fun isString :: "json \<Rightarrow> bool" where
  "isString (JString s) = True"
| "isString _ = False"

section \<open>The version index (json/versionindex.cpp)\<close>

text \<open>
  Modelled from the spec: \<^verbatim>\<open>AssetDownloadInfo\<close> (json/assetdownloadinfo.h is not among
  the sources); the spec gives the wire shape \<^verbatim>\<open>assetIndex: {id, sha1}\<close>.
\<close>

record AssetDownloadInfo =
  adi_sha1 :: qstring
  adi_id :: qstring

definition AssetDownloadInfo :: "jobject \<Rightarrow> AssetDownloadInfo" where
  "AssetDownloadInfo jObject =
     \<lparr>adi_sha1 = toString (jvalue jObject ''sha1''),
      adi_id = toString (jvalue jObject ''id'')\<rparr>"

text \<open>
  \<^verbatim>\<open>LibraryInfo\<close> (its constructor is not among the sources) keeps the JSON object it is
  built from; the platform predicates that read it are parameters of the assembler.
\<close>

datatype LibraryInfo = LibraryInfo jobject

text \<open>The release time is kept as the text handed to \<^verbatim>\<open>QDateTime::fromString\<close>.\<close>

record VersionIndex =
  vi_id :: qstring
  vi_releaseTime :: qstring
  vi_assetsIndex :: qstring
  vi_libraries :: "LibraryInfo list"
  vi_mainClass :: qstring
  vi_gameArguments :: "qstring list"

definition VersionIndex :: "jobject \<Rightarrow> VersionIndex" where
  "VersionIndex jObject =
     \<lparr>vi_id = toString (jvalue jObject ''id''),
      vi_releaseTime = toString (jvalue jObject ''releaseTime''),
      vi_assetsIndex =
        (if jcontains jObject ''assetIndex''
         then (let assetsInfo = AssetDownloadInfo (toObject (jvalue jObject ''assetIndex''))
               in arg2 (adi_sha1 assetsInfo) (adi_id assetsInfo))
         else toString (jvalue jObject ''assets'')),
      vi_libraries = map (\<lambda>jLibraryInfo. LibraryInfo (toObject jLibraryInfo))
                         (toArray (jvalue jObject ''libraries'')),
      vi_mainClass = toString (jvalue jObject ''mainClass''),
      vi_gameArguments =
        (if jcontains jObject ''arguments''
         then map toString
                (filter isString
                   (toArray (jvalue (toObject (jvalue jObject ''arguments'')) ''game'')))
         else split CHR '' '' (toString (jvalue jObject ''minecraftArguments'')))\<rparr>"


text \<open>
  The two wire shapes of the spec, for the same content: the modern shape carries a
  structured \<^verbatim>\<open>assetIndex\<close> object and an \<^verbatim>\<open>arguments.game\<close> array, the legacy shape a
  flat \<^verbatim>\<open>assets\<close> string and the argument tokens joined by single spaces in
  \<^verbatim>\<open>minecraftArguments\<close>.
\<close>

fun join :: "char \<Rightarrow> qstring list \<Rightarrow> qstring" where
  "join sep [] = []"
| "join sep [t] = t"
| "join sep (t # u # us) = t @ sep # join sep (u # us)"

definition modern_descriptor :: "qstring \<Rightarrow> qstring \<Rightarrow> qstring \<Rightarrow> json list \<Rightarrow> jobject" where
  "modern_descriptor vid sha1 aid game =
     [(''id'', JString vid),
      (''assetIndex'', JObject [(''id'', JString aid), (''sha1'', JString sha1)]),
      (''arguments'', JObject [(''game'', JArray game)])]"

definition legacy_descriptor :: "qstring \<Rightarrow> qstring \<Rightarrow> qstring list \<Rightarrow> jobject" where
  "legacy_descriptor vid assets tokens =
     [(''id'', JString vid),
      (''assets'', JString assets),
      (''minecraftArguments'', JString (join CHR '' '' tokens))]"

definition string_tokens :: "json list \<Rightarrow> qstring list" where
  "string_tokens game = map toString (filter isString game)"

section \<open>The versions manager (versionsmanager.cpp)\<close>

subsection \<open>Data\<close>

text \<open>
  Modelled from the spec: \<^verbatim>\<open>Prefix\<close> (its header is not among the sources): identifier,
  description, list of known version identifiers, identifier of the latest version.
  \<^verbatim>\<open>Prefix(id, about)\<close> starts with no versions; \<^verbatim>\<open>Prefix()\<close> is what
  \<^verbatim>\<open>QHash::operator[]\<close> inserts for a key it does not hold.
\<close>

record Prefix =
  p_id :: qstring
  p_about :: qstring
  p_versions :: "qstring list"
  p_latestVersionId :: qstring

definition Prefix :: "qstring \<Rightarrow> qstring \<Rightarrow> Prefix" where
  "Prefix i a = \<lparr>p_id = i, p_about = a, p_versions = [], p_latestVersionId = []\<rparr>"

definition Prefix_default :: Prefix where
  "Prefix_default = \<lparr>p_id = [], p_about = [], p_versions = [], p_latestVersionId = []\<rparr>"

text \<open>
  Modelled from the spec: the prefixes index maps a prefix identifier to its metadata
  \<^verbatim>\<open>{about: string}\<close>; the per-prefix versions index holds the latest version id and the
  full list of version ids. Their JSON constructors are parameters (see \<open>env\<close>).
\<close>

record PrefixEntry =
  pe_about :: qstring

type_synonym PrefixesIndex = "(qstring \<times> PrefixEntry) list"

record PrefixVersionsIndex =
  pvi_latest :: qstring
  pvi_versions :: "qstring list"

record FullVersionId =
  fv_prefix :: qstring
  fv_id :: qstring

text \<open>
  Modelled from the spec: \<^verbatim>\<open>FullVersionId::toString\<close>; the local layout
  \<^verbatim>\<open><base>/versions/<prefix>/<version>/data.json\<close> is built from it.
\<close>

definition fv_toString :: "FullVersionId \<Rightarrow> qstring" where
  "fv_toString version = arg2 (fv_prefix version) (fv_id version)"

text \<open>Containers keyed by strings: \<^verbatim>\<open>keys()\<close>, \<^verbatim>\<open>contains\<close> and \<^verbatim>\<open>operator[]\<close>.\<close>

definition keys :: "(qstring \<times> 'v) list \<Rightarrow> qstring list" where
  "keys h = remdups (map fst h)"

definition contains :: "(qstring \<times> 'v) list \<Rightarrow> qstring \<Rightarrow> bool" where
  "contains h k = (map_of h k \<noteq> None)"

definition entryAt :: "PrefixesIndex \<Rightarrow> qstring \<Rightarrow> PrefixEntry" where
  "entryAt h k = (case map_of h k of None \<Rightarrow> \<lparr>pe_about = []\<rparr> | Some e \<Rightarrow> e)"

definition prefixAt :: "(qstring \<times> Prefix) list \<Rightarrow> qstring \<Rightarrow> Prefix" where
  "prefixAt h k = (case map_of h k of None \<Rightarrow> Prefix_default | Some p \<Rightarrow> p)"

subsection \<open>The world: network, file system, log and signals\<close>

datatype level = Info | Warning | Error

datatype signal = onFetchPrefixesResult bool | onFetchVersionIndexesResult bool

datatype reply = NetworkError qstring | NoError bytes

text \<open>
  What the manager does to the outside, in the order it does it. Opening a file
  \<^verbatim>\<open>WriteOnly\<close> creates or truncates it, and the flag says whether the open succeeded.
  \<^verbatim>\<open>QFile::write\<close> returns the number of bytes it has written: that many bytes of the
  data reach the file, all of them when the write succeeds and fewer, possibly none,
  when it fails. The event keeps the data handed to \<^verbatim>\<open>write\<close> and this number.
\<close>

datatype event =
    Log level qstring
  | Request qstring
  | MkPath qstring
  | OpenWrite qstring bool
  | Write qstring bytes nat
  | Emit signal

type_synonym disk = "qstring \<Rightarrow> bytes option"

fun fs_effect :: "event \<Rightarrow> disk \<Rightarrow> disk" where
  "fs_effect (OpenWrite path True) d = d(path \<mapsto> [])"
| "fs_effect (Write path data n) d = d(path \<mapsto> take n data)"
| "fs_effect _ d = d"

text \<open>
  Modelled from the spec: the data descriptor \<^verbatim>\<open>main: {hash, size}\<close>,
  \<^verbatim>\<open>files: {relpath: {hash, size}}\<close>, \<^verbatim>\<open>libs: {storagepath: {hash, size}}\<close>, the assets
  descriptor \<^verbatim>\<open>objects: {name: {hash, size}}\<close>, and the file descriptor the assembler
  emits (storage/fileinfo.h): URL, local path, expected hash and size.
\<close>

record CheckInfo =
  ci_hash :: qstring
  ci_size :: int

record DataIndex =
  di_main :: CheckInfo
  di_files :: "(qstring \<times> CheckInfo) list"
  di_libs :: "(qstring \<times> CheckInfo) list"

record AssetsIndex =
  ai_objects :: "(qstring \<times> CheckInfo) list"

record FileInfo =
  fi_url :: qstring
  fi_path :: qstring
  fi_hash :: qstring
  fi_size :: int

definition FileInfo :: "qstring \<Rightarrow> qstring \<Rightarrow> qstring \<Rightarrow> int \<Rightarrow> FileInfo" where
  "FileInfo url path h sz = \<lparr>fi_url = url, fi_path = path, fi_hash = h, fi_size = sz\<rparr>"

definition checkAt :: "(qstring \<times> CheckInfo) list \<Rightarrow> qstring \<Rightarrow> CheckInfo" where
  "checkAt h k = (case map_of h k of None \<Rightarrow> \<lparr>ci_hash = [], ci_size = 0\<rparr> | Some c \<Rightarrow> c)"

text \<open>
  The parts of the environment the manager only reads: the reply to a GET of a URL
  (a timeout is a \<open>NetworkError\<close>), the subdirectories of a directory, whether a file
  can be opened for writing, how many bytes a write to a file stores, the JSON reader and
  writer of Qt, the constructors and
  validity tests of the index types whose sources are absent, and the platform
  predicates on libraries.
\<close>

record env =
  net :: "qstring \<Rightarrow> reply"
  entryList :: "qstring \<Rightarrow> qstring list"
  canOpenWrite :: "qstring \<Rightarrow> bool"
  bytesWritten :: "qstring \<Rightarrow> bytes \<Rightarrow> nat"
  fromJson :: "bytes \<Rightarrow> json"
  toJson :: "jobject \<Rightarrow> bytes"
  PrefixesIndex :: "jobject \<Rightarrow> PrefixesIndex"
  toJsonObject :: "PrefixesIndex \<Rightarrow> jobject"
  PrefixVersionsIndex :: "jobject \<Rightarrow> PrefixVersionsIndex"
  DataIndex :: "jobject \<Rightarrow> DataIndex"
  AssetsIndex :: "jobject \<Rightarrow> AssetsIndex"
  dataIndex_isValid :: "DataIndex \<Rightarrow> bool"
  versionIndex_isValid :: "VersionIndex \<Rightarrow> bool"
  assetsIndex_isValid :: "AssetsIndex \<Rightarrow> bool"
  isLibraryAllowed :: "LibraryInfo \<Rightarrow> bool"
  getLibraryPath :: "LibraryInfo \<Rightarrow> qstring"

record state =
  storeUrl :: qstring
  dataPath :: qstring
  versionsPath :: qstring
  indexPath :: qstring
  index :: PrefixesIndex
  prefixes :: "(qstring \<times> Prefix) list"
  prefixFetchQueue :: "qstring list"
  fetchingPrefixes :: bool
  fetchingVersionIndexes :: bool
  disk :: disk
  events :: "event list"

definition perform :: "event \<Rightarrow> state \<Rightarrow> state" where
  "perform e st = st\<lparr>disk := fs_effect e (disk st), events := events st @ [e]\<rparr>"

definition log_info :: "qstring \<Rightarrow> state \<Rightarrow> state" where
  "log_info msg = perform (Log Info msg)"

definition log_warning :: "qstring \<Rightarrow> state \<Rightarrow> state" where
  "log_warning msg = perform (Log Warning msg)"

definition log_error :: "qstring \<Rightarrow> state \<Rightarrow> state" where
  "log_error msg = perform (Log Error msg)"

definition mkpath :: "qstring \<Rightarrow> state \<Rightarrow> state" where
  "mkpath path = perform (MkPath path)"

definition file_open_WriteOnly :: "env \<Rightarrow> qstring \<Rightarrow> state \<Rightarrow> state" where
  "file_open_WriteOnly e path = perform (OpenWrite path (canOpenWrite e path))"

text \<open>The source never looks at what \<^verbatim>\<open>write\<close> and \<^verbatim>\<open>mkpath\<close> return.\<close>

definition file_write :: "env \<Rightarrow> qstring \<Rightarrow> bytes \<Rightarrow> state \<Rightarrow> state" where
  "file_write e path data = perform (Write path data (bytesWritten e path data))"

definition makeGetRequest :: "qstring \<Rightarrow> state \<Rightarrow> state" where
  "makeGetRequest url st = perform (Request url) (log_info (''Requesting '' @ [CHR 0x27] @ url @ [CHR 0x27] @ ''...'') st)"

text \<open>\<^verbatim>\<open>QString::number\<close>, decimal.\<close>

fun number :: "nat \<Rightarrow> qstring" where
  "number n =
     (if n < 10 then [''0123456789'' ! n]
      else number (n div 10) @ [''0123456789'' ! (n mod 10)])"

declare number.simps [simp del]


definition quoted :: "qstring \<Rightarrow> qstring" where
  "quoted s = [CHR 0x27] @ s @ [CHR 0x27]"

subsection \<open>Local-version discovery and the constructor\<close>

text \<open>
  The body of the \<^verbatim>\<open>foreach\<close> of \<^verbatim>\<open>findLocalVersions\<close>, over the subdirectories still to
  visit. A file that is not on the disk cannot be opened for reading.
\<close>

fun scanVersions ::
  "env \<Rightarrow> qstring \<Rightarrow> qstring \<Rightarrow> qstring list \<Rightarrow> Prefix \<times> state \<Rightarrow> Prefix \<times> state" where
  "scanVersions e prefixId prefixPath [] ps = ps"
| "scanVersions e prefixId prefixPath (versionId # rest) (prefix, st) =
     (let versionIndexPath = prefixPath @ ''/'' @ versionId @ ''/'' @ versionId @ ''.json''
      in case disk st versionIndexPath of
           None \<Rightarrow> scanVersions e prefixId prefixPath rest (prefix, st)
         | Some content \<Rightarrow>
             (let versionIndex = VersionIndex (toObject (fromJson e content))
              in if vi_id versionIndex \<noteq> versionId
                 then scanVersions e prefixId prefixPath rest
                        (prefix,
                         log_warning (''A version index '' @ quoted versionIndexPath @
                            '' contains the wrong version id '' @ quoted (vi_id versionIndex)) st)
                 else scanVersions e prefixId prefixPath rest
                        (prefix\<lparr>p_versions := p_versions prefix @ [versionId]\<rparr>,
                         log_info (''Local version is found: '' @
                            quoted (arg2 prefixId versionId)) st)))"

definition findLocalVersions :: "env \<Rightarrow> qstring \<Rightarrow> state \<Rightarrow> state" where
  "findLocalVersions e prefixId st =
     (let prefix = prefixAt (prefixes st) prefixId;
          prefixPath = arg2 (versionsPath st) prefixId;
          versions = entryList e prefixPath;
          (prefix1, st1) = scanVersions e prefixId prefixPath versions (prefix, st);
          prefix2 = prefix1\<lparr>p_versions := sort_desc (p_versions prefix1)\<rparr>;
          prefix3 = (if length (p_versions prefix2) > 1
                     then prefix2\<lparr>p_latestVersionId := p_versions prefix2 ! 1\<rparr>
                     else prefix2)
      in st1\<lparr>prefixes := AList.update prefixId prefix3 (prefixes st1)\<rparr>)"

text \<open>
  The two statements the constructor runs for a prefix of the local index: the prefix is
  inserted anew, with no versions, and scanned. This is the only call of
  \<^verbatim>\<open>findLocalVersions\<close>.
\<close>

definition discoverPrefix :: "env \<Rightarrow> qstring \<Rightarrow> qstring \<Rightarrow> state \<Rightarrow> state" where
  "discoverPrefix e i about st =
     findLocalVersions e i (st\<lparr>prefixes := AList.update i (Prefix i about) (prefixes st)\<rparr>)"

fun loadPrefixes :: "env \<Rightarrow> qstring list \<Rightarrow> state \<Rightarrow> state" where
  "loadPrefixes e [] st = st"
| "loadPrefixes e (i # ids) st =
     (if i = [] then loadPrefixes e ids st
      else loadPrefixes e ids (discoverPrefix e i (pe_about (entryAt (index st) i)) st))"

definition VersionsManager :: "env \<Rightarrow> qstring \<Rightarrow> qstring \<Rightarrow> qstring \<Rightarrow> disk \<Rightarrow> state" where
  "VersionsManager e dirName url basePath d =
     (let dataPath0 = arg2 basePath dirName;
          versionsPath0 = arg2 dataPath0 ''versions'';
          indexPath0 = arg2 versionsPath0 ''prefixes.json'';
          st0 = mkpath versionsPath0
                 \<lparr>storeUrl = url, dataPath = dataPath0, versionsPath = versionsPath0,
                  indexPath = indexPath0, index = [], prefixes = [], prefixFetchQueue = [],
                  fetchingPrefixes = False, fetchingVersionIndexes = False,
                  disk = d, events = []\<rparr>;
          st1 = (case disk st0 indexPath0 of
                   Some content \<Rightarrow> st0\<lparr>index := PrefixesIndex e (toObject (fromJson e content))\<rparr>
                 | None \<Rightarrow> log_info ''Default version index have been created'' st0);
          st2 = loadPrefixes e (keys (index st1)) st1
      in log_info (''Initialized with '' @ number (length (keys (index st2))) @ '' prefix(es)'') st2)"

subsection \<open>The prefix discovery flow\<close>

definition setFetchPrefixesResult :: "bool \<Rightarrow> state \<Rightarrow> state" where
  "setFetchPrefixesResult result st =
     perform (Emit (onFetchPrefixesResult result))
       ((if result then log_info ''All prefixes are successfully fetched!'' st else st)
          \<lparr>prefixFetchQueue := [], fetchingPrefixes := False\<rparr>)"

text \<open>
  The reply handler of \<^verbatim>\<open>fetchNextPrefixOrFinish\<close> for a reply without error, up to the
  call that goes on with the queue.
\<close>

definition mergePrefixVersions :: "env \<Rightarrow> qstring \<Rightarrow> bytes \<Rightarrow> state \<Rightarrow> state" where
  "mergePrefixVersions e prefixId content st =
     (let versionsIndex = PrefixVersionsIndex e (toObject (fromJson e content));
          prefix = (prefixAt (prefixes st) prefixId)\<lparr>p_latestVersionId := pvi_latest versionsIndex\<rparr>;
          knownVersions = set (p_versions prefix);
          prefix1 = prefix\<lparr>p_versions := p_versions prefix @
                      filter (\<lambda>versionId. versionId \<notin> knownVersions) (pvi_versions versionsIndex)\<rparr>;
          prefix2 = prefix1\<lparr>p_versions := sort_desc (p_versions prefix1)\<rparr>
      in st\<lparr>prefixes := AList.update prefixId prefix2 (prefixes st)\<rparr>)"

definition versionsUrl :: "state \<Rightarrow> qstring \<Rightarrow> qstring" where
  "versionsUrl st prefixId = storeUrl st @ ''/'' @ prefixId @ ''/versions/versions.json''"

function fetchNextPrefixOrFinish :: "env \<Rightarrow> state \<Rightarrow> state" where
  "fetchNextPrefixOrFinish e st =
     (case prefixFetchQueue st of
        [] \<Rightarrow> setFetchPrefixesResult True st
      | prefixId # rest \<Rightarrow>
          (case net e (versionsUrl st prefixId) of
             NetworkError err \<Rightarrow>
               setFetchPrefixesResult False
                 (log_error (''Failed to get the versions index for the prefix '' @
                      quoted prefixId @ '': '' @ err)
                    (makeGetRequest (versionsUrl st prefixId) (st\<lparr>prefixFetchQueue := rest\<rparr>)))
           | NoError content \<Rightarrow>
               fetchNextPrefixOrFinish e
                 (mergePrefixVersions e prefixId content
                    (makeGetRequest (versionsUrl st prefixId) (st\<lparr>prefixFetchQueue := rest\<rparr>)))))"
  by pat_completeness auto
termination
  by (relation "measure (\<lambda>(e, st). length (prefixFetchQueue st))")
     (auto simp: mergePrefixVersions_def makeGetRequest_def log_info_def perform_def Let_def)

declare fetchNextPrefixOrFinish.simps [simp del]

text \<open>The \<^verbatim>\<open>foreach\<close> of the reply handler of \<^verbatim>\<open>fetchPrefixes\<close>, over the remote keys.\<close>

fun mergePrefixes :: "PrefixesIndex \<Rightarrow> qstring list \<Rightarrow> state \<Rightarrow> state" where
  "mergePrefixes remoteIndex [] st = st"
| "mergePrefixes remoteIndex (i # ids) st =
     mergePrefixes remoteIndex ids
       (st\<lparr>index := AList.update i (entryAt remoteIndex i) (index st),
           prefixFetchQueue := prefixFetchQueue st @ [i],
           prefixes := (if contains (prefixes st) i then prefixes st
                        else AList.update i (Prefix i (pe_about (entryAt remoteIndex i)))
                               (prefixes st))\<rparr>)"

text \<open>The index file is written where it lies: opened \<^verbatim>\<open>WriteOnly\<close>, then written.\<close>

definition saveIndex :: "env \<Rightarrow> state \<Rightarrow> state" where
  "saveIndex e st =
     (let st1 = file_open_WriteOnly e (indexPath st) st
      in if canOpenWrite e (indexPath st)
         then file_write e (indexPath st) (toJson e (toJsonObject e (index st))) st1
         else st1)"

definition fetchPrefixes :: "env \<Rightarrow> state \<Rightarrow> state" where
  "fetchPrefixes e st =
     (if fetchingPrefixes st
      then log_warning ''Failed to start a prefixes fetching! Already in progress!'' st
      else
        (let st1 = makeGetRequest (storeUrl st @ ''/prefixes.json'')
                     ((log_info ''Fetching actual prefixes...'' st)\<lparr>fetchingPrefixes := True\<rparr>)
         in case net e (storeUrl st @ ''/prefixes.json'') of
              NetworkError err \<Rightarrow>
                setFetchPrefixesResult False
                  (log_error (''Failed to get the prefixes index: '' @ err) st1)
            | NoError content \<Rightarrow>
                (let remoteIndex = PrefixesIndex e (toObject (fromJson e content));
                     st2 = mergePrefixes remoteIndex (keys remoteIndex) st1;
                     st3 = saveIndex e st2
                 in if canOpenWrite e (indexPath st2)
                    then fetchNextPrefixOrFinish e st3
                    else setFetchPrefixesResult False
                           (log_error ''Failed to save the prefixes index file!'' st3))))"


subsection \<open>The per-version manifest fetch flow\<close>

definition setFetchVersionIndexesResult :: "bool \<Rightarrow> state \<Rightarrow> state" where
  "setFetchVersionIndexesResult result st =
     perform (Emit (onFetchVersionIndexesResult result))
       ((if result then log_info ''All indexes are successfully fetched!'' st else st)
          \<lparr>fetchingVersionIndexes := False\<rparr>)"

definition versionDir :: "qstring \<Rightarrow> FullVersionId \<Rightarrow> qstring" where
  "versionDir base version = base @ ''/'' @ fv_prefix version @ ''/'' @ fv_id version"

definition versionIndexLocation :: "qstring \<Rightarrow> FullVersionId \<Rightarrow> qstring" where
  "versionIndexLocation base version =
     base @ ''/'' @ fv_prefix version @ ''/'' @ fv_id version @ ''/'' @ fv_id version @ ''.json''"

definition assetsIndexLocation :: "qstring \<Rightarrow> qstring \<Rightarrow> qstring" where
  "assetsIndexLocation base assets = base @ ''/assets/indexes/'' @ assets @ ''.json''"

definition dataIndexLocation :: "qstring \<Rightarrow> FullVersionId \<Rightarrow> qstring" where
  "dataIndexLocation base version =
     base @ ''/'' @ fv_prefix version @ ''/'' @ fv_id version @ ''/data.json''"

definition fetchVersionDataIndex :: "env \<Rightarrow> FullVersionId \<Rightarrow> state \<Rightarrow> state" where
  "fetchVersionDataIndex e version st =
     (let st1 = makeGetRequest (dataIndexLocation (storeUrl st) version) st
      in case net e (dataIndexLocation (storeUrl st) version) of
           NetworkError err \<Rightarrow>
             setFetchVersionIndexesResult False
               (log_error (''Failed to get the data index '' @ quoted (fv_toString version) @
                    '': '' @ err) st1)
         | NoError content \<Rightarrow>
             (let st2 = mkpath (versionDir (versionsPath st) version) st1;
                  st3 = file_open_WriteOnly e (dataIndexLocation (versionsPath st) version) st2
              in if \<not> canOpenWrite e (dataIndexLocation (versionsPath st) version)
                 then setFetchVersionIndexesResult False
                        (log_error (''Failed to save the data index '' @
                             quoted (fv_toString version)) st3)
                 else setFetchVersionIndexesResult True
                        (file_write e (dataIndexLocation (versionsPath st) version) content st3)))"

definition fetchVersionAssetsIndex :: "env \<Rightarrow> FullVersionId \<Rightarrow> qstring \<Rightarrow> state \<Rightarrow> state" where
  "fetchVersionAssetsIndex e version assets st =
     (if assets = []
      then setFetchVersionIndexesResult False
             (log_error (''Failed to resolve assets index path for the version '' @
                  quoted (fv_toString version)) st)
      else
        (let st1 = makeGetRequest (assetsIndexLocation (storeUrl st) assets) st
         in case net e (assetsIndexLocation (storeUrl st) assets) of
              NetworkError err \<Rightarrow>
                setFetchVersionIndexesResult False
                  (log_error (''Failed to get the assets index '' @ quoted assets @ '' ('' @
                       fv_toString version @ ''): '' @ err) st1)
            | NoError content \<Rightarrow>
                (let st2 = mkpath (dataPath st @ ''/assets/indexes'') st1;
                     st3 = file_open_WriteOnly e (assetsIndexLocation (dataPath st) assets) st2
                 in if \<not> canOpenWrite e (assetsIndexLocation (dataPath st) assets)
                    then setFetchVersionIndexesResult False
                           (log_error (''Failed to save the assets index '' @ quoted assets @
                                '' ('' @ fv_toString version @ '')'') st3)
                    else fetchVersionDataIndex e version
                           (file_write e (assetsIndexLocation (dataPath st) assets) content st3))))"

definition fetchVersionMainIndex :: "env \<Rightarrow> FullVersionId \<Rightarrow> state \<Rightarrow> state" where
  "fetchVersionMainIndex e version st =
     (let st1 = makeGetRequest (versionIndexLocation (storeUrl st) version) st
      in case net e (versionIndexLocation (storeUrl st) version) of
           NetworkError err \<Rightarrow>
             setFetchVersionIndexesResult False
               (log_error (''Failed to get the version index '' @ quoted (fv_toString version) @
                    '': '' @ err) st1)
         | NoError content \<Rightarrow>
             (let st2 = mkpath (versionDir (versionsPath st) version) st1;
                  st3 = file_open_WriteOnly e (versionIndexLocation (versionsPath st) version) st2
              in if \<not> canOpenWrite e (versionIndexLocation (versionsPath st) version)
                 then setFetchVersionIndexesResult False
                        (log_error (''Failed to save the version index '' @
                             quoted (fv_toString version)) st3)
                 else
                   (let st4 = file_write e (versionIndexLocation (versionsPath st) version) content st3;
                        versionIndex = VersionIndex (toObject (fromJson e content))
                    in fetchVersionAssetsIndex e version (vi_assetsIndex versionIndex) st4)))"

definition fetchVersionIndexes :: "env \<Rightarrow> FullVersionId \<Rightarrow> state \<Rightarrow> state" where
  "fetchVersionIndexes e version st =
     (if fetchingVersionIndexes st
      then log_warning ''Failed to start a version indexes fetching! Already in progress!'' st
      else fetchVersionMainIndex e version
             ((log_info (''Fetching actual indexes for the '' @ quoted (fv_toString version) @
                  ''...'') st)\<lparr>fetchingVersionIndexes := True\<rparr>))"

subsection \<open>The manifest assembler\<close>

text \<open>
  \<^verbatim>\<open>loadIndex<T>\<close> does not look at the result of \<^verbatim>\<open>open\<close>: a file that cannot be opened
  reads as no bytes. The constructor \<open>T\<close> is applied by the caller.
\<close>

definition loadIndex :: "env \<Rightarrow> state \<Rightarrow> qstring \<Rightarrow> jobject" where
  "loadIndex e st path =
     toObject (fromJson e (case disk st path of None \<Rightarrow> [] | Some content \<Rightarrow> content))"

text \<open>The three \<^verbatim>\<open>foreach\<close> loops of \<^verbatim>\<open>fillVersionFiles\<close>.\<close>

definition auxFiles :: "state \<Rightarrow> FullVersionId \<Rightarrow> DataIndex \<Rightarrow> FileInfo list" where
  "auxFiles st version dataIndex =
     map (\<lambda>fileName.
            FileInfo (storeUrl st @ ''/'' @ fv_toString version @ ''/files/'' @ fileName)
                     (versionsPath st @ ''/'' @ fv_toString version @ ''/files/'' @ fileName)
                     (ci_hash (checkAt (di_files dataIndex) fileName))
                     (ci_size (checkAt (di_files dataIndex) fileName)))
         (keys (di_files dataIndex))"

fun libraryFiles ::
  "env \<Rightarrow> DataIndex \<Rightarrow> LibraryInfo list \<Rightarrow> FileInfo list \<times> state \<Rightarrow> FileInfo list \<times> state" where
  "libraryFiles e dataIndex [] fs = fs"
| "libraryFiles e dataIndex (libInfo # rest) (files, st) =
     (if \<not> isLibraryAllowed e libInfo then libraryFiles e dataIndex rest (files, st)
      else if \<not> contains (di_libs dataIndex) (getLibraryPath e libInfo)
      then libraryFiles e dataIndex rest
             (files,
              log_warning (''Library '' @ quoted (getLibraryPath e libInfo) @
                 '' is missing in the data index'') st)
      else libraryFiles e dataIndex rest
             (files @
                [FileInfo (arg2 (storeUrl st @ ''/libraries'') (getLibraryPath e libInfo))
                          (arg2 (dataPath st @ ''/libraries'') (getLibraryPath e libInfo))
                          (ci_hash (checkAt (di_libs dataIndex) (getLibraryPath e libInfo)))
                          (ci_size (checkAt (di_libs dataIndex) (getLibraryPath e libInfo)))],
              st))"

definition assetFiles :: "state \<Rightarrow> AssetsIndex \<Rightarrow> FileInfo list" where
  "assetFiles st assetsIndex =
     map (\<lambda>asset.
            FileInfo (storeUrl st @ ''/assets/objects/'' @ arg2 (take 2 (ci_hash asset)) (ci_hash asset))
                     (dataPath st @ ''/assets/objects/'' @ arg2 (take 2 (ci_hash asset)) (ci_hash asset))
                     (ci_hash asset) (ci_size asset))
         (map snd (ai_objects assetsIndex))"

definition mainFile :: "state \<Rightarrow> FullVersionId \<Rightarrow> DataIndex \<Rightarrow> FileInfo" where
  "mainFile st version dataIndex =
     FileInfo (versionDir (storeUrl st) version @ ''/'' @ fv_id version @ ''.jar'')
              (versionDir (versionsPath st) version @ ''/'' @ fv_id version @ ''.jar'')
              (ci_hash (di_main dataIndex)) (ci_size (di_main dataIndex))"

definition fillVersionFiles ::
  "env \<Rightarrow> FullVersionId \<Rightarrow> FileInfo list \<Rightarrow> state \<Rightarrow> bool \<times> FileInfo list \<times> state" where
  "fillVersionFiles e version files st =
     (let st1 = log_info (''Collecting files for the version '' @ quoted (fv_toString version) @
                   ''...'') st;
          dataIndex = DataIndex e
            (loadIndex e st1 (versionsPath st @ ''/'' @ fv_toString version @ ''/data.json''))
      in if \<not> dataIndex_isValid e dataIndex
         then (False, files, log_error ''Failed to load data index!'' st1)
         else
           (let files1 = files @ [mainFile st version dataIndex];
                files2 = files1 @ auxFiles st version dataIndex;
                versionIndex = VersionIndex
                  (loadIndex e st1 (versionIndexLocation (versionsPath st) version))
            in if \<not> versionIndex_isValid e versionIndex
               then (False, files2, log_error ''Failed to load version index!'' st1)
               else
                 (let (files3, st2) =
                        libraryFiles e dataIndex (vi_libraries versionIndex) (files2, st1);
                      assetsIndex = AssetsIndex e
                        (loadIndex e st2
                           (assetsIndexLocation (dataPath st) (vi_assetsIndex versionIndex)))
                  in if \<not> assetsIndex_isValid e assetsIndex
                     then (False, files3, log_error ''Failed to load version index!'' st2)
                     else
                       (let files4 = files3 @ assetFiles st assetsIndex
                        in (True, files4,
                            log_info (''Need to check '' @ number (length files4) @ '' files'')
                              st2)))))"


subsection \<open>Observations and sample inputs\<close>

text \<open>The URLs requested and the signals emitted, in order.\<close>

fun requests :: "event list \<Rightarrow> qstring list" where
  "requests [] = []"
| "requests (Request url # evs) = url # requests evs"
| "requests (_ # evs) = requests evs"

fun emitted :: "event list \<Rightarrow> signal list" where
  "emitted [] = []"
| "emitted (Emit s # evs) = s # emitted evs"
| "emitted (_ # evs) = emitted evs"

fun warnings :: "event list \<Rightarrow> qstring list" where
  "warnings [] = []"
| "warnings (Log Warning msg # evs) = msg # warnings evs"
| "warnings (_ # evs) = warnings evs"

text \<open>The version list of a prefix of the catalog.\<close>

definition versionsOf :: "state \<Rightarrow> qstring \<Rightarrow> qstring list" where
  "versionsOf st prefixId = p_versions (prefixAt (prefixes st) prefixId)"

definition latestOf :: "state \<Rightarrow> qstring \<Rightarrow> qstring" where
  "latestOf st prefixId = p_latestVersionId (prefixAt (prefixes st) prefixId)"

text \<open>
  A sample environment: no network, no directories, every file can be opened for
  writing and every write stores all its bytes, a file's bytes read as an object whose
  \<open>id\<close> they are.
\<close>

definition sample_env :: env where
  "sample_env =
     \<lparr>net = (\<lambda>url. NetworkError ''offline''),
      entryList = (\<lambda>path. []),
      canOpenWrite = (\<lambda>path. True),
      bytesWritten = (\<lambda>path data. length data),
      fromJson = (\<lambda>content. JObject [(''id'', JString content)]),
      toJson = (\<lambda>obj. ''{}''),
      PrefixesIndex = (\<lambda>obj. []),
      toJsonObject = (\<lambda>idx. []),
      PrefixVersionsIndex = (\<lambda>obj. \<lparr>pvi_latest = [], pvi_versions = []\<rparr>),
      DataIndex = (\<lambda>obj. \<lparr>di_main = \<lparr>ci_hash = [], ci_size = 0\<rparr>, di_files = [], di_libs = []\<rparr>),
      AssetsIndex = (\<lambda>obj. \<lparr>ai_objects = []\<rparr>),
      dataIndex_isValid = (\<lambda>d. True),
      versionIndex_isValid = (\<lambda>v. True),
      assetsIndex_isValid = (\<lambda>a. True),
      isLibraryAllowed = (\<lambda>l. True),
      getLibraryPath = (\<lambda>l. [])\<rparr>"

definition sample_state :: state where
  "sample_state =
     \<lparr>storeUrl = ''http://store'', dataPath = ''/data'', versionsPath = ''/data/versions'',
      indexPath = ''/data/versions/prefixes.json'', index = [], prefixes = [],
      prefixFetchQueue = [], fetchingPrefixes = False, fetchingVersionIndexes = False,
      disk = Map.empty, events = []\<rparr>"

text \<open>
  The scenario of the spec: the prefix \<open>release\<close> with its local versions, queued for its
  version fetch, and a store that answers with a versions index of the given list.
\<close>

definition release_env :: "qstring list \<Rightarrow> env" where
  "release_env remote =
     sample_env\<lparr>net := (\<lambda>url. NoError ''versions''),
                PrefixVersionsIndex := (\<lambda>obj. \<lparr>pvi_latest = ''1.2'', pvi_versions = remote\<rparr>)\<rparr>"

definition release_state :: "qstring list \<Rightarrow> state" where
  "release_state local =
     sample_state\<lparr>prefixes := [(''release'', (Prefix ''release'' ''Releases'')\<lparr>p_versions := local\<rparr>)],
                  prefixFetchQueue := [''release''], fetchingPrefixes := True\<rparr>"

text \<open>
  A catalog that knows \<open>release\<close> and \<open>beta\<close>, and a store whose prefixes index describes
  \<open>release\<close> anew and adds \<open>snapshot\<close>.
\<close>

definition catalog_state :: state where
  "catalog_state =
     sample_state\<lparr>index := [(''release'', \<lparr>pe_about = ''old''\<rparr>), (''beta'', \<lparr>pe_about = ''Beta''\<rparr>)],
                  prefixes := [(''release'', Prefix ''release'' ''old''),
                               (''beta'', Prefix ''beta'' ''Beta'')]\<rparr>"

definition catalog_env :: env where
  "catalog_env =
     sample_env\<lparr>net := (\<lambda>url. if url = ''http://store/prefixes.json'' then NoError ''remote''
                              else NetworkError ''offline''),
                PrefixesIndex := (\<lambda>obj. [(''release'', \<lparr>pe_about = ''new''\<rparr>),
                                         (''snapshot'', \<lparr>pe_about = ''Snapshots''\<rparr>)])\<rparr>"

text \<open>
  What the scan of \<^verbatim>\<open>findLocalVersions\<close> decides for one subdirectory: the version is
  accepted when its index file can be read and holds the name of the subdirectory as its
  id; a readable index with another id is warned about.
\<close>

definition localIndexPath :: "qstring \<Rightarrow> qstring \<Rightarrow> qstring" where
  "localIndexPath prefixPath versionId =
     prefixPath @ ''/'' @ versionId @ ''/'' @ versionId @ ''.json''"

definition isLocalVersion :: "env \<Rightarrow> state \<Rightarrow> qstring \<Rightarrow> qstring \<Rightarrow> bool" where
  "isLocalVersion e st prefixPath versionId =
     (case disk st (localIndexPath prefixPath versionId) of
        None \<Rightarrow> False
      | Some content \<Rightarrow> vi_id (VersionIndex (toObject (fromJson e content))) = versionId)"

definition wrongIdWarning :: "env \<Rightarrow> state \<Rightarrow> qstring \<Rightarrow> qstring \<Rightarrow> qstring list" where
  "wrongIdWarning e st prefixPath versionId =
     (case disk st (localIndexPath prefixPath versionId) of
        None \<Rightarrow> []
      | Some content \<Rightarrow>
          (if vi_id (VersionIndex (toObject (fromJson e content))) = versionId then []
           else [''A version index '' @ quoted (localIndexPath prefixPath versionId) @
                 '' contains the wrong version id '' @
                 quoted (vi_id (VersionIndex (toObject (fromJson e content))))]))"

definition localVersions :: "env \<Rightarrow> state \<Rightarrow> qstring \<Rightarrow> qstring list" where
  "localVersions e st prefixId =
     filter (isLocalVersion e st (arg2 (versionsPath st) prefixId))
       (entryList e (arg2 (versionsPath st) prefixId))"

text \<open>
  A local tree for the prefix \<open>release\<close>: the directories \<open>1.0\<close>, \<open>0.9\<close> and \<open>0.8\<close>, where
  the index stored under \<open>1.0\<close> says \<open>1.1\<close> and the other two say their own names.
\<close>

definition tree_env :: "qstring list \<Rightarrow> env" where
  "tree_env dirs = sample_env\<lparr>entryList := (\<lambda>path. if path = ''/data/versions/release'' then dirs else [])\<rparr>"

definition tree_state :: state where
  "tree_state =
     sample_state\<lparr>prefixes := [(''release'', Prefix ''release'' ''Releases'')],
                  disk := [''/data/versions/release/1.0/1.0.json'' \<mapsto> ''1.1'',
                           ''/data/versions/release/0.9/0.9.json'' \<mapsto> ''0.9'',
                           ''/data/versions/release/0.8/0.8.json'' \<mapsto> ''0.8'']\<rparr>"

text \<open>The bytes of the data that a write to a file stores.\<close>

definition stored :: "env \<Rightarrow> qstring \<Rightarrow> bytes \<Rightarrow> bytes" where
  "stored e path data = take (bytesWritten e path data) data"

text \<open>
  The conditions under which each stage of the per-version fetch flow goes through, read
  off the environment: the reply has no error, the local file opens for writing and,
  for the first stage, the fetched descriptor names an assets index.
\<close>

fun replyOk :: "reply \<Rightarrow> bool" where
  "replyOk (NoError content) = True"
| "replyOk (NetworkError err) = False"

fun payload :: "reply \<Rightarrow> bytes" where
  "payload (NoError content) = content"
| "payload (NetworkError err) = []"

definition assetsRef :: "env \<Rightarrow> state \<Rightarrow> FullVersionId \<Rightarrow> qstring" where
  "assetsRef e st version =
     vi_assetsIndex (VersionIndex (toObject (fromJson e
        (payload (net e (versionIndexLocation (storeUrl st) version))))))"

definition mainStageOk :: "env \<Rightarrow> state \<Rightarrow> FullVersionId \<Rightarrow> bool" where
  "mainStageOk e st version =
     (replyOk (net e (versionIndexLocation (storeUrl st) version))
      \<and> canOpenWrite e (versionIndexLocation (versionsPath st) version)
      \<and> assetsRef e st version \<noteq> [])"

definition assetsStageOk :: "env \<Rightarrow> state \<Rightarrow> FullVersionId \<Rightarrow> bool" where
  "assetsStageOk e st version =
     (replyOk (net e (assetsIndexLocation (storeUrl st) (assetsRef e st version)))
      \<and> canOpenWrite e (assetsIndexLocation (dataPath st) (assetsRef e st version)))"

definition dataStageOk :: "env \<Rightarrow> state \<Rightarrow> FullVersionId \<Rightarrow> bool" where
  "dataStageOk e st version =
     (replyOk (net e (dataIndexLocation (storeUrl st) version))
      \<and> canOpenWrite e (dataIndexLocation (versionsPath st) version))"


text \<open>
  A store that answers every request with the bytes \<open>1.0\<close>, except for the URLs listed as
  failing; the bytes read as a legacy descriptor with that id and, when the flag is set,
  that assets string.
\<close>

definition flow_env :: "bool \<Rightarrow> qstring list \<Rightarrow> env" where
  "flow_env withAssets failing =
     sample_env\<lparr>net := (\<lambda>url. if url \<in> set failing then NetworkError ''timeout''
                              else NoError ''1.0''),
                fromJson := (\<lambda>content. JObject ((''id'', JString content) #
                               (if withAssets then [(''assets'', JString content)] else [])))\<rparr>"

definition release_1_0 :: FullVersionId where
  "release_1_0 = \<lparr>fv_prefix = ''release'', fv_id = ''1.0''\<rparr>"

text \<open>The same store, with a disk on which no write stores a byte.\<close>

definition short_write_env :: env where
  "short_write_env = (flow_env True [])\<lparr>bytesWritten := (\<lambda>path data. 0)\<rparr>"

text \<open>
  The contents of the disk at every point of a sequence of events: before the first
  event, and after each one.
\<close>

definition disk_points :: "disk \<Rightarrow> event list \<Rightarrow> disk list" where
  "disk_points d evs = map (\<lambda>n. fold fs_effect (take n evs) d) [0..<Suc (length evs)]"

text \<open>
  What \<open>saveIndex\<close> does to the outside, and what the index file holds at every point
  while it does so.
\<close>

definition saveIndex_events :: "env \<Rightarrow> state \<Rightarrow> event list" where
  "saveIndex_events e st = drop (length (events st)) (events (saveIndex e st))"

definition indexFile_points :: "env \<Rightarrow> state \<Rightarrow> bytes option list" where
  "indexFile_points e st =
     map (\<lambda>d. d (indexPath st)) (disk_points (disk st) (saveIndex_events e st))"

definition indexed_state :: state where
  "indexed_state =
     sample_state\<lparr>index := [(''release'', \<lparr>pe_about = ''Releases''\<rparr>)],
                  disk := [''/data/versions/prefixes.json'' \<mapsto> ''{old}'']\<rparr>"

text \<open>
  The descriptors \<open>fillVersionFiles\<close> loads from the local store, the libraries it keeps,
  and the file descriptor it emits for a library.
\<close>

definition localDataIndex :: "env \<Rightarrow> state \<Rightarrow> FullVersionId \<Rightarrow> DataIndex" where
  "localDataIndex e st version =
     DataIndex e (loadIndex e st (versionsPath st @ ''/'' @ fv_toString version @ ''/data.json''))"

definition localVersionIndex :: "env \<Rightarrow> state \<Rightarrow> FullVersionId \<Rightarrow> VersionIndex" where
  "localVersionIndex e st version =
     VersionIndex (loadIndex e st (versionIndexLocation (versionsPath st) version))"

definition localAssetsIndex :: "env \<Rightarrow> state \<Rightarrow> FullVersionId \<Rightarrow> AssetsIndex" where
  "localAssetsIndex e st version =
     AssetsIndex e (loadIndex e st
        (assetsIndexLocation (dataPath st) (vi_assetsIndex (localVersionIndex e st version))))"

definition applicableLibraries :: "env \<Rightarrow> DataIndex \<Rightarrow> LibraryInfo list \<Rightarrow> LibraryInfo list" where
  "applicableLibraries e dataIndex libs =
     filter (\<lambda>libInfo. isLibraryAllowed e libInfo
                       \<and> contains (di_libs dataIndex) (getLibraryPath e libInfo)) libs"

definition libraryFile :: "env \<Rightarrow> state \<Rightarrow> DataIndex \<Rightarrow> LibraryInfo \<Rightarrow> FileInfo" where
  "libraryFile e st dataIndex libInfo =
     FileInfo (arg2 (storeUrl st @ ''/libraries'') (getLibraryPath e libInfo))
              (arg2 (dataPath st @ ''/libraries'') (getLibraryPath e libInfo))
              (ci_hash (checkAt (di_libs dataIndex) (getLibraryPath e libInfo)))
              (ci_size (checkAt (di_libs dataIndex) (getLibraryPath e libInfo)))"

text \<open>
  A local store for \<open>release/1.0\<close>: a data descriptor with one auxiliary file and one
  library, a version descriptor with two libraries of which the data descriptor knows
  one, and an assets descriptor with one object.
\<close>

definition assembly_env :: "bool \<Rightarrow> bool \<Rightarrow> bool \<Rightarrow> env" where
  "assembly_env dataOk versionOk assetsOk =
     sample_env\<lparr>DataIndex := (\<lambda>obj. \<lparr>di_main = \<lparr>ci_hash = ''m'', ci_size = 1\<rparr>,
                                     di_files = [(''servers.dat'', \<lparr>ci_hash = ''f'', ci_size = 2\<rparr>)],
                                     di_libs = [(''a/a.jar'', \<lparr>ci_hash = ''l'', ci_size = 3\<rparr>)]\<rparr>),
                AssetsIndex := (\<lambda>obj. \<lparr>ai_objects = [(''icon.png'', \<lparr>ci_hash = ''abcdef'', ci_size = 4\<rparr>)]\<rparr>),
                fromJson := (\<lambda>content. JObject [(''id'', JString content),
                                                   (''assets'', JString ''legacy''),
                                                   (''libraries'', JArray [JObject [(''name'', JString ''a'')],
                                                                           JObject [(''name'', JString ''b'')]])]),
                getLibraryPath := (\<lambda>l. toString (jvalue (case l of LibraryInfo obj \<Rightarrow> obj) ''name'') @ ''/a.jar''),
                dataIndex_isValid := (\<lambda>d. dataOk),
                versionIndex_isValid := (\<lambda>v. versionOk),
                assetsIndex_isValid := (\<lambda>a. assetsOk)\<rparr>"

section \<open>Properties\<close>

subsection \<open>The two shapes of the version descriptor\<close>

lemma split_no_sep: "sep \<notin> set s \<Longrightarrow> split sep s = [s]"
  by (induction s) auto

lemma split_append_sep: "sep \<notin> set t \<Longrightarrow> split sep (t @ sep # s) = t # split sep s"
  by (induction t) auto

lemma split_join:
  "ts \<noteq> [] \<Longrightarrow> \<forall>t\<in>set ts. sep \<notin> set t \<Longrightarrow> split sep (join sep ts) = ts"
proof (induction sep ts rule: join.induct)
  case (1 sep)
  then show ?case by simp
next
  case (2 sep t)
  then show ?case by (simp add: split_no_sep)
next
  case (3 sep t u us)
  then show ?case by (simp add: split_append_sep)
qed

lemma modern_gameArguments:
  "vi_gameArguments (VersionIndex (modern_descriptor vid sha1 aid game)) = string_tokens game"
  by (simp add: VersionIndex_def modern_descriptor_def jcontains_def jvalue_def string_tokens_def)

lemma legacy_gameArguments:
  "vi_gameArguments (VersionIndex (legacy_descriptor vid assets tokens)) =
     split CHR '' '' (join CHR '' '' tokens)"
  by (simp add: VersionIndex_def legacy_descriptor_def jcontains_def jvalue_def)

lemma modern_assetsIndex:
  "vi_assetsIndex (VersionIndex (modern_descriptor vid sha1 aid game)) = sha1 @ ''/'' @ aid"
  by (simp add: VersionIndex_def modern_descriptor_def jcontains_def jvalue_def
      AssetDownloadInfo_def arg2_def)

lemma legacy_assetsIndex:
  "vi_assetsIndex (VersionIndex (legacy_descriptor vid assets tokens)) = assets"
  by (simp add: VersionIndex_def legacy_descriptor_def jcontains_def jvalue_def)

text \<open>
  C8, as stated, fails: a descriptor with no game arguments parses to no argument in the
  modern shape and to one empty argument in the legacy shape, since splitting the empty
  string gives one empty part.
\<close>

theorem version_index_empty_arguments_differ:
  "string_tokens [] = []
   \<and> vi_gameArguments (VersionIndex (modern_descriptor ''1.0'' ''abc'' ''1.12'' [])) = []
   \<and> vi_gameArguments
       (VersionIndex (legacy_descriptor ''1.0'' ''abc/1.12'' (string_tokens []))) = [[]]
   \<and> vi_gameArguments (VersionIndex (modern_descriptor ''1.0'' ''abc'' ''1.12'' [])) \<noteq>
     vi_gameArguments
       (VersionIndex (legacy_descriptor ''1.0'' ''abc/1.12'' (string_tokens [])))"
  by (simp add: modern_gameArguments legacy_gameArguments string_tokens_def)

text \<open>
  C8, amended: when the string tokens of \<^verbatim>\<open>arguments.game\<close> are at least one and none
  holds a space, and the legacy descriptor carries them joined by single spaces, both
  shapes parse to the same argument list. The assets-index reference of the modern shape
  is the composite \<^verbatim>\<open>sha1/id\<close>, that of the legacy shape is its \<^verbatim>\<open>assets\<close> string as it
  stands; the two are equal exactly when the legacy string is that composite.
\<close>

theorem version_index_shapes_agree:
  assumes "string_tokens game \<noteq> []"
    and "\<forall>t\<in>set (string_tokens game). CHR '' '' \<notin> set t"
  shows "vi_gameArguments (VersionIndex (modern_descriptor vid sha1 aid game)) =
           vi_gameArguments (VersionIndex (legacy_descriptor vid assets (string_tokens game)))
       \<and> vi_assetsIndex (VersionIndex (modern_descriptor vid sha1 aid game)) = sha1 @ ''/'' @ aid
       \<and> vi_assetsIndex (VersionIndex (legacy_descriptor vid assets (string_tokens game))) = assets"
  using assms
  by (simp add: modern_gameArguments legacy_gameArguments modern_assetsIndex
      legacy_assetsIndex split_join)

theorem version_index_shapes_agree_witness:
  "string_tokens [JString ''--username'', JObject [], JString ''steve''] \<noteq> []
   \<and> CHR '' '' \<notin> set ''--username'' \<and> CHR '' '' \<notin> set ''steve''
   \<and> vi_gameArguments (VersionIndex (modern_descriptor ''1.0'' ''abc'' ''1.12''
         [JString ''--username'', JObject [], JString ''steve''])) = [''--username'', ''steve'']
   \<and> vi_gameArguments (VersionIndex (legacy_descriptor ''1.0'' ''abc/1.12''
         (string_tokens [JString ''--username'', JObject [], JString ''steve'']))) =
       [''--username'', ''steve'']
   \<and> vi_assetsIndex (VersionIndex (modern_descriptor ''1.0'' ''abc'' ''1.12''
         [JString ''--username'', JObject [], JString ''steve''])) = ''abc/1.12''"
  using version_index_shapes_agree [of "[JString ''--username'', JObject [], JString ''steve'']"
      "''1.0''" "''abc''" "''1.12''" "''abc/1.12''"]
  by (simp add: string_tokens_def legacy_gameArguments)

subsection \<open>Merging the versions of a prefix\<close>

lemma set_sort_desc [simp]: "set (sort_desc xs) = set xs"
  by (simp add: sort_desc_def)

lemma length_sort_desc [simp]: "length (sort_desc xs) = length xs"
  by (simp add: sort_desc_def)

lemma distinct_sort_desc [simp]: "distinct (sort_desc xs) = distinct xs"
  by (simp add: sort_desc_def)

lemma sorted_desc_sort_desc [simp]: "sorted_desc (sort_desc xs)"
  by (simp add: sort_desc_def sorted_desc_def)

lemma prefixAt_update [simp]: "prefixAt (AList.update k p h) k = p"
  by (simp add: prefixAt_def update_conv')

lemma prefixAt_update_other: "k' \<noteq> k \<Longrightarrow> prefixAt (AList.update k p h) k' = prefixAt h k'"
  by (simp add: prefixAt_def update_conv')

lemma versionsOf_mergePrefixVersions:
  "versionsOf (mergePrefixVersions e prefixId content st) prefixId =
     sort_desc (versionsOf st prefixId @
       filter (\<lambda>versionId. versionId \<notin> set (versionsOf st prefixId))
         (pvi_versions (PrefixVersionsIndex e (toObject (fromJson e content)))))"
  by (simp add: versionsOf_def mergePrefixVersions_def Let_def)

lemma latestOf_mergePrefixVersions:
  "latestOf (mergePrefixVersions e prefixId content st) prefixId =
     pvi_latest (PrefixVersionsIndex e (toObject (fromJson e content)))"
  by (simp add: latestOf_def mergePrefixVersions_def Let_def)

lemma distinct_length_le: "distinct xs \<Longrightarrow> set xs \<subseteq> set ys \<Longrightarrow> length xs \<le> length ys"
  by (metis card_length card_mono distinct_card finite_set le_trans)

text \<open>
  C1, amended: after the version fetch of a prefix has succeeded, the version list of the
  prefix has as its elements exactly the previously known identifiers and the remote
  ones, is sorted in descending order and is at least as long as the previous list; the
  latest-version pointer is the remote one. When the remote list has no duplicates the
  merged list is at least as long as it, and when neither list has duplicates the merged
  list has none.
\<close>

theorem merged_versions:
  "set (versionsOf (mergePrefixVersions e prefixId content st) prefixId) =
     set (versionsOf st prefixId) \<union>
     set (pvi_versions (PrefixVersionsIndex e (toObject (fromJson e content))))
   \<and> sorted_desc (versionsOf (mergePrefixVersions e prefixId content st) prefixId)
   \<and> length (versionsOf st prefixId) \<le>
       length (versionsOf (mergePrefixVersions e prefixId content st) prefixId)
   \<and> (distinct (pvi_versions (PrefixVersionsIndex e (toObject (fromJson e content)))) \<longrightarrow>
       length (pvi_versions (PrefixVersionsIndex e (toObject (fromJson e content)))) \<le>
         length (versionsOf (mergePrefixVersions e prefixId content st) prefixId))
   \<and> (distinct (versionsOf st prefixId) \<and>
      distinct (pvi_versions (PrefixVersionsIndex e (toObject (fromJson e content)))) \<longrightarrow>
       distinct (versionsOf (mergePrefixVersions e prefixId content st) prefixId))
   \<and> latestOf (mergePrefixVersions e prefixId content st) prefixId =
       pvi_latest (PrefixVersionsIndex e (toObject (fromJson e content)))"
proof -
  let ?local = "versionsOf st prefixId"
  let ?remote = "pvi_versions (PrefixVersionsIndex e (toObject (fromJson e content)))"
  let ?merged = "versionsOf (mergePrefixVersions e prefixId content st) prefixId"
  have m: "?merged = sort_desc (?local @ filter (\<lambda>v. v \<notin> set ?local) ?remote)"
    by (rule versionsOf_mergePrefixVersions)
  have s: "set ?merged = set ?local \<union> set ?remote"
    unfolding m by auto
  have o: "sorted_desc ?merged"
    unfolding m by simp
  have l: "length ?local \<le> length ?merged"
    unfolding m by simp
  have r: "length ?remote \<le> length ?merged" if "distinct ?remote"
    using that s by (intro distinct_length_le) auto
  have d: "distinct ?merged" if "distinct ?local" "distinct ?remote"
    unfolding m using that by auto
  show ?thesis
    using s o l r d latestOf_mergePrefixVersions by blast
qed


theorem merged_versions_witness:
  "distinct (versionsOf (release_state [''1.0'']) ''release'')
   \<and> distinct (pvi_versions (PrefixVersionsIndex (release_env [''1.2'', ''1.1''])
         (toObject (fromJson (release_env [''1.2'', ''1.1'']) ''versions''))))
   \<and> versionsOf (mergePrefixVersions (release_env [''1.2'', ''1.1'']) ''release'' ''versions''
         (release_state [''1.0''])) ''release'' = [''1.2'', ''1.1'', ''1.0'']
   \<and> distinct (versionsOf (mergePrefixVersions (release_env [''1.2'', ''1.1'']) ''release''
         ''versions'' (release_state [''1.0''])) ''release'')
   \<and> versionsOf (fetchNextPrefixOrFinish (release_env [''1.2'', ''1.1''])
         (release_state [''1.0''])) ''release'' = [''1.2'', ''1.1'', ''1.0'']
   \<and> emitted (events (fetchNextPrefixOrFinish (release_env [''1.2'', ''1.1''])
         (release_state [''1.0'']))) = [onFetchPrefixesResult True]"
  using merged_versions [of "release_env [''1.2'', ''1.1'']" "''release''" "''versions''"
      "release_state [''1.0'']"]
  by (simp add: fetchNextPrefixOrFinish.simps
      release_env_def release_state_def sample_env_def sample_state_def versionsOf_def
      prefixAt_def Prefix_def sort_desc_def mergePrefixVersions_def makeGetRequest_def
      log_info_def perform_def versionsUrl_def setFetchPrefixesResult_def Let_def)

text \<open>
  C1, as stated for all lists, fails where the remote list repeats an identifier: the
  merged list is then shorter than the remote list when the identifier is known locally,
  and holds it twice when it is not.
\<close>

theorem merged_versions_duplicates:
  "versionsOf (mergePrefixVersions (release_env [''1.0'', ''1.0'']) ''release'' ''versions''
      (release_state [''1.0''])) ''release'' = [''1.0'']
   \<and> \<not> max (length (versionsOf (release_state [''1.0'']) ''release''))
            (length (pvi_versions (PrefixVersionsIndex (release_env [''1.0'', ''1.0''])
               (toObject (fromJson (release_env [''1.0'', ''1.0'']) ''versions'')))))
        \<le> length (versionsOf (mergePrefixVersions (release_env [''1.0'', ''1.0'']) ''release''
              ''versions'' (release_state [''1.0''])) ''release'')
   \<and> versionsOf (mergePrefixVersions (release_env [''1.0'', ''1.0'']) ''release'' ''versions''
      (release_state [])) ''release'' = [''1.0'', ''1.0'']
   \<and> \<not> distinct (versionsOf (mergePrefixVersions (release_env [''1.0'', ''1.0'']) ''release''
      ''versions'' (release_state [])) ''release'')"
  by (simp add: mergePrefixVersions_def release_env_def release_state_def
      sample_env_def sample_state_def versionsOf_def prefixAt_def Prefix_def sort_desc_def
      Let_def)

subsection \<open>Merging the remote prefixes index\<close>

lemma set_keys: "set (keys h) = dom (map_of h)"
  by (simp add: keys_def dom_map_of_conv_image_fst)

lemma entryAt_Some: "map_of r k = Some v \<Longrightarrow> entryAt r k = v"
  by (simp add: entryAt_def)

lemma index_mergePrefixes:
  "map_of (index (mergePrefixes r ids st)) k =
     (if k \<in> set ids then Some (entryAt r k) else map_of (index st) k)"
  by (induction ids arbitrary: st) (auto simp: update_conv')

lemma queue_mergePrefixes:
  "prefixFetchQueue (mergePrefixes r ids st) = prefixFetchQueue st @ ids"
  by (induction ids arbitrary: st) auto

lemma dom_prefixes_mergePrefixes:
  "dom (map_of (prefixes (mergePrefixes r ids st))) = dom (map_of (prefixes st)) \<union> set ids"
  by (induction ids arbitrary: st) (auto simp: update_conv' contains_def)

lemma known_prefix_mergePrefixes:
  "contains (prefixes st) k \<Longrightarrow>
     map_of (prefixes (mergePrefixes r ids st)) k = map_of (prefixes st) k"
  by (induction ids arbitrary: st) (auto simp: update_conv' contains_def)

lemma index_perform [simp]: "index (perform ev st) = index st"
  by (simp add: perform_def)

lemma index_makeGetRequest [simp]: "index (makeGetRequest url st) = index st"
  by (simp add: makeGetRequest_def log_info_def)

lemma index_setFetchPrefixesResult [simp]: "index (setFetchPrefixesResult b st) = index st"
  by (simp add: setFetchPrefixesResult_def log_info_def)

lemma index_saveIndex [simp]: "index (saveIndex e st) = index st"
  by (simp add: saveIndex_def file_open_WriteOnly_def file_write_def Let_def)

lemma index_mergePrefixVersions [simp]: "index (mergePrefixVersions e p c st) = index st"
  by (simp add: mergePrefixVersions_def Let_def)

lemma index_fetchNextPrefixOrFinish [simp]: "index (fetchNextPrefixOrFinish e st) = index st"
proof (induction e st rule: fetchNextPrefixOrFinish.induct)
  case (1 e st)
  show ?case
    by (subst fetchNextPrefixOrFinish.simps)
       (use 1 in \<open>auto split: list.splits reply.splits simp: log_error_def\<close>)
qed


lemma index_fetchPrefixes:
  assumes "\<not> fetchingPrefixes st"
    and "net e (storeUrl st @ ''/prefixes.json'') = NoError content"
  shows "map_of (index (fetchPrefixes e st)) =
           map_of (index st) ++ map_of (PrefixesIndex e (toObject (fromJson e content)))"
proof (rule ext)
  fix k
  let ?r = "PrefixesIndex e (toObject (fromJson e content))"
  have "map_of (index (fetchPrefixes e st)) k =
          (if k \<in> dom (map_of ?r) then Some (entryAt ?r k) else map_of (index st) k)"
    using assms
    by (simp add: fetchPrefixes_def Let_def index_mergePrefixes set_keys log_error_def
        log_info_def)
  also have "\<dots> = (map_of (index st) ++ map_of ?r) k"
    by (auto simp: map_add_def entryAt_Some split: option.splits)
  finally show "map_of (index (fetchPrefixes e st)) k = (map_of (index st) ++ map_of ?r) k" .
qed

lemma prefixes_perform [simp]: "prefixes (perform ev st) = prefixes st"
  by (simp add: perform_def)

lemma prefixes_makeGetRequest [simp]: "prefixes (makeGetRequest url st) = prefixes st"
  by (simp add: makeGetRequest_def log_info_def)

lemma prefixes_setFetchPrefixesResult [simp]:
  "prefixes (setFetchPrefixesResult b st) = prefixes st"
  by (simp add: setFetchPrefixesResult_def log_info_def)

lemma prefixes_saveIndex [simp]: "prefixes (saveIndex e st) = prefixes st"
  by (simp add: saveIndex_def file_open_WriteOnly_def file_write_def Let_def)

lemma queue_perform [simp]: "prefixFetchQueue (perform ev st) = prefixFetchQueue st"
  by (simp add: perform_def)

lemma queue_makeGetRequest [simp]:
  "prefixFetchQueue (makeGetRequest url st) = prefixFetchQueue st"
  by (simp add: makeGetRequest_def log_info_def)

lemma queue_saveIndex [simp]: "prefixFetchQueue (saveIndex e st) = prefixFetchQueue st"
  by (simp add: saveIndex_def file_open_WriteOnly_def file_write_def Let_def)

lemma dom_prefixes_mergePrefixVersions:
  "dom (map_of (prefixes (mergePrefixVersions e p c st))) = insert p (dom (map_of (prefixes st)))"
  by (simp add: mergePrefixVersions_def Let_def update_conv')

lemma queue_mergePrefixVersions [simp]:
  "prefixFetchQueue (mergePrefixVersions e p c st) = prefixFetchQueue st"
  by (simp add: mergePrefixVersions_def Let_def)

lemma dom_prefixes_fetchNextPrefixOrFinish:
  "set (prefixFetchQueue st) \<subseteq> dom (map_of (prefixes st)) \<Longrightarrow>
     dom (map_of (prefixes (fetchNextPrefixOrFinish e st))) = dom (map_of (prefixes st))"
proof (induction e st rule: fetchNextPrefixOrFinish.induct)
  case (1 e st)
  show ?case
  proof (cases "prefixFetchQueue st")
    case Nil
    then show ?thesis
      by (subst fetchNextPrefixOrFinish.simps) simp
  next
    case (Cons prefixId rest)
    show ?thesis
    proof (cases "net e (versionsUrl st prefixId)")
      case (NetworkError err)
      with Cons show ?thesis
        by (subst fetchNextPrefixOrFinish.simps) (simp add: log_error_def)
    next
      case (NoError content)
      let ?st' = "mergePrefixVersions e prefixId content
                    (makeGetRequest (versionsUrl st prefixId) (st\<lparr>prefixFetchQueue := rest\<rparr>))"
      have d: "dom (map_of (prefixes ?st')) = dom (map_of (prefixes st))"
        using "1.prems" Cons by (auto simp: dom_prefixes_mergePrefixVersions)
      have q: "set (prefixFetchQueue ?st') \<subseteq> dom (map_of (prefixes ?st'))"
        using "1.prems" Cons unfolding d by auto
      have "dom (map_of (prefixes (fetchNextPrefixOrFinish e ?st'))) = dom (map_of (prefixes ?st'))"
        using "1.IH" [OF Cons NoError q] .
      with d Cons NoError show ?thesis
        by (subst fetchNextPrefixOrFinish.simps) simp
    qed
  qed
qed

lemma about_mergePrefixVersions [simp]:
  "p_about (prefixAt (prefixes (mergePrefixVersions e p c st)) i) =
     p_about (prefixAt (prefixes st) i)"
  by (cases "i = p") (simp_all add: mergePrefixVersions_def Let_def prefixAt_update_other)

lemma id_mergePrefixVersions [simp]:
  "p_id (prefixAt (prefixes (mergePrefixVersions e p c st)) i) = p_id (prefixAt (prefixes st) i)"
  by (cases "i = p") (simp_all add: mergePrefixVersions_def Let_def prefixAt_update_other)

lemma about_fetchNextPrefixOrFinish [simp]:
  "p_about (prefixAt (prefixes (fetchNextPrefixOrFinish e st)) i) =
     p_about (prefixAt (prefixes st) i)"
proof (induction e st rule: fetchNextPrefixOrFinish.induct)
  case (1 e st)
  show ?case
    by (subst fetchNextPrefixOrFinish.simps)
       (use 1 in \<open>auto split: list.splits reply.splits simp: log_error_def\<close>)
qed

lemma id_fetchNextPrefixOrFinish [simp]:
  "p_id (prefixAt (prefixes (fetchNextPrefixOrFinish e st)) i) = p_id (prefixAt (prefixes st) i)"
proof (induction e st rule: fetchNextPrefixOrFinish.induct)
  case (1 e st)
  show ?case
    by (subst fetchNextPrefixOrFinish.simps)
       (use 1 in \<open>auto split: list.splits reply.splits simp: log_error_def\<close>)
qed

lemma map_of_prefixes_mergePrefixes:
  "map_of (prefixes (mergePrefixes r ids st)) i =
     (if contains (prefixes st) i \<or> i \<notin> set ids then map_of (prefixes st) i
      else Some (Prefix i (pe_about (entryAt r i))))"
proof (induction ids arbitrary: st)
  case Nil
  then show ?case by simp
next
  case (Cons j ids)
  show ?case
    by (auto simp: Cons.IH contains_def update_conv')
qed

lemma prefixAt_mergePrefixes:
  "prefixAt (prefixes (mergePrefixes r ids st)) i =
     (if contains (prefixes st) i \<or> i \<notin> set ids then prefixAt (prefixes st) i
      else Prefix i (pe_about (entryAt r i)))"
  by (simp add: prefixAt_def map_of_prefixes_mergePrefixes)

lemma about_fetchPrefixes:
  assumes "\<not> fetchingPrefixes st"
    and "net e (storeUrl st @ ''/prefixes.json'') = NoError content"
  shows "p_about (prefixAt (prefixes (fetchPrefixes e st)) i) =
           (if contains (prefixes st) i
               \<or> i \<notin> set (keys (PrefixesIndex e (toObject (fromJson e content))))
            then p_about (prefixAt (prefixes st) i)
            else pe_about (entryAt (PrefixesIndex e (toObject (fromJson e content))) i))"
  using assms
  by (simp add: fetchPrefixes_def Let_def prefixAt_mergePrefixes log_error_def log_info_def
      Prefix_def)

lemma id_fetchPrefixes:
  assumes "\<not> fetchingPrefixes st"
    and "net e (storeUrl st @ ''/prefixes.json'') = NoError content"
  shows "p_id (prefixAt (prefixes (fetchPrefixes e st)) i) =
           (if contains (prefixes st) i
               \<or> i \<notin> set (keys (PrefixesIndex e (toObject (fromJson e content))))
            then p_id (prefixAt (prefixes st) i)
            else i)"
  using assms
  by (simp add: fetchPrefixes_def Let_def prefixAt_mergePrefixes log_error_def log_info_def
      Prefix_def)

lemmas catalog_sample_defs = catalog_state_def catalog_env_def sample_state_def sample_env_def

text \<open>
  C2, as stated, fails for the catalog of prefix entries: the entry of a prefix that was
  known locally is not replaced, so it keeps the description it had, whatever the remote
  index says.
\<close>

theorem known_prefix_keeps_description:
  "contains (prefixes catalog_state) ''release''
   \<and> map_of (PrefixesIndex catalog_env (toObject (fromJson catalog_env ''remote''))) ''release'' =
       Some \<lparr>pe_about = ''new''\<rparr>
   \<and> p_about (prefixAt (prefixes catalog_state) ''release'') = ''old''
   \<and> p_about (prefixAt (prefixes (fetchPrefixes catalog_env catalog_state)) ''release'') = ''old''"
proof -
  have h: "\<not> fetchingPrefixes catalog_state"
    "net catalog_env (storeUrl catalog_state @ ''/prefixes.json'') = NoError ''remote''"
    by (simp_all add: catalog_sample_defs)
  have c: "contains (prefixes catalog_state) ''release''"
    by (simp add: catalog_sample_defs contains_def)
  have "p_about (prefixAt (prefixes (fetchPrefixes catalog_env catalog_state)) ''release'') =
      p_about (prefixAt (prefixes catalog_state) ''release'')"
    using c by (simp add: about_fetchPrefixes [OF h])
  then show ?thesis
    using c by (simp add: catalog_sample_defs prefixAt_def Prefix_def)
qed

text \<open>
  C2, amended: when the remote prefixes index has been fetched, the prefixes index in
  memory has the keys of the local and of the remote index, holds for every remote key
  the remote metadata, also where the key was known locally, and keeps the local metadata
  of every other key. The prefix entries of the catalog have the union of the keys as
  well, and the entry made for a remote prefix that was not known carries its identifier
  and the remote description.
\<close>

theorem remote_prefixes_win:
  assumes "\<not> fetchingPrefixes st"
    and "net e (storeUrl st @ ''/prefixes.json'') = NoError content"
    and "prefixFetchQueue st = []"
  shows "set (keys (index (fetchPrefixes e st))) =
           set (keys (index st)) \<union> set (keys (PrefixesIndex e (toObject (fromJson e content))))
       \<and> (\<forall>i \<in> set (keys (PrefixesIndex e (toObject (fromJson e content)))).
            map_of (index (fetchPrefixes e st)) i =
              map_of (PrefixesIndex e (toObject (fromJson e content))) i)
       \<and> (\<forall>i. i \<notin> set (keys (PrefixesIndex e (toObject (fromJson e content)))) \<longrightarrow>
            map_of (index (fetchPrefixes e st)) i = map_of (index st) i)
       \<and> set (keys (prefixes (fetchPrefixes e st))) =
           set (keys (prefixes st)) \<union> set (keys (PrefixesIndex e (toObject (fromJson e content))))
       \<and> (\<forall>i \<in> set (keys (PrefixesIndex e (toObject (fromJson e content)))).
            \<not> contains (prefixes st) i \<longrightarrow>
              p_id (prefixAt (prefixes (fetchPrefixes e st)) i) = i
              \<and> p_about (prefixAt (prefixes (fetchPrefixes e st)) i) =
                  pe_about (entryAt (PrefixesIndex e (toObject (fromJson e content))) i))"
proof -
  let ?r = "PrefixesIndex e (toObject (fromJson e content))"
  have m: "map_of (index (fetchPrefixes e st)) = map_of (index st) ++ map_of ?r"
    using assms(1,2) by (rule index_fetchPrefixes)
  have k: "set (keys (index (fetchPrefixes e st))) = set (keys (index st)) \<union> set (keys ?r)"
    by (auto simp: set_keys m)
  have w: "\<forall>i \<in> set (keys ?r). map_of (index (fetchPrefixes e st)) i = map_of ?r i"
    by (auto simp: set_keys m map_add_def)
  have l: "\<forall>i. i \<notin> set (keys ?r) \<longrightarrow> map_of (index (fetchPrefixes e st)) i = map_of (index st) i"
    by (auto simp: set_keys m map_add_def split: option.splits)
  let ?st2 = "mergePrefixes ?r (keys ?r)
                (makeGetRequest (storeUrl st @ ''/prefixes.json'')
                   ((log_info ''Fetching actual prefixes...'' st)\<lparr>fetchingPrefixes := True\<rparr>))"
  have d2: "dom (map_of (prefixes ?st2)) = dom (map_of (prefixes st)) \<union> set (keys ?r)"
    by (simp add: dom_prefixes_mergePrefixes log_info_def)
  have q2: "set (prefixFetchQueue (saveIndex e ?st2)) \<subseteq> dom (map_of (prefixes (saveIndex e ?st2)))"
    using assms(3) by (simp add: queue_mergePrefixes dom_prefixes_mergePrefixes log_info_def)
  have "dom (map_of (prefixes (fetchPrefixes e st))) = dom (map_of (prefixes ?st2))"
    using assms(1,2) dom_prefixes_fetchNextPrefixOrFinish [OF q2]
    by (simp add: fetchPrefixes_def Let_def log_error_def)
  then have p: "set (keys (prefixes (fetchPrefixes e st))) =
      set (keys (prefixes st)) \<union> set (keys ?r)"
    by (simp add: set_keys d2)
  have n: "\<forall>i \<in> set (keys ?r). \<not> contains (prefixes st) i \<longrightarrow>
      p_id (prefixAt (prefixes (fetchPrefixes e st)) i) = i
      \<and> p_about (prefixAt (prefixes (fetchPrefixes e st)) i) = pe_about (entryAt ?r i)"
    by (simp add: about_fetchPrefixes [OF assms(1,2)] id_fetchPrefixes [OF assms(1,2)])
  show ?thesis
    using k w l p n by blast
qed

theorem remote_prefixes_win_witness:
  "\<not> fetchingPrefixes catalog_state
   \<and> net catalog_env (storeUrl catalog_state @ ''/prefixes.json'') = NoError ''remote''
   \<and> prefixFetchQueue catalog_state = []
   \<and> set (keys (index (fetchPrefixes catalog_env catalog_state))) =
       {''release'', ''beta'', ''snapshot''}
   \<and> map_of (index catalog_state) ''release'' = Some \<lparr>pe_about = ''old''\<rparr>
   \<and> map_of (index (fetchPrefixes catalog_env catalog_state)) ''release'' =
       Some \<lparr>pe_about = ''new''\<rparr>
   \<and> map_of (index (fetchPrefixes catalog_env catalog_state)) ''snapshot'' =
       Some \<lparr>pe_about = ''Snapshots''\<rparr>
   \<and> map_of (index (fetchPrefixes catalog_env catalog_state)) ''beta'' =
       Some \<lparr>pe_about = ''Beta''\<rparr>
   \<and> set (keys (prefixes (fetchPrefixes catalog_env catalog_state))) =
       {''release'', ''beta'', ''snapshot''}
   \<and> \<not> contains (prefixes catalog_state) ''snapshot''
   \<and> p_id (prefixAt (prefixes (fetchPrefixes catalog_env catalog_state)) ''snapshot'') =
       ''snapshot''
   \<and> p_about (prefixAt (prefixes (fetchPrefixes catalog_env catalog_state)) ''snapshot'') =
       ''Snapshots''"
proof -
  have h: "\<not> fetchingPrefixes catalog_state"
    "net catalog_env (storeUrl catalog_state @ ''/prefixes.json'') = NoError ''remote''"
    "prefixFetchQueue catalog_state = []"
    by (simp_all add: catalog_state_def catalog_env_def sample_state_def sample_env_def)
  have r: "PrefixesIndex catalog_env (toObject (fromJson catalog_env ''remote'')) =
      [(''release'', \<lparr>pe_about = ''new''\<rparr>), (''snapshot'', \<lparr>pe_about = ''Snapshots''\<rparr>)]"
    by (simp add: catalog_env_def sample_env_def)
  have i: "index catalog_state =
      [(''release'', \<lparr>pe_about = ''old''\<rparr>), (''beta'', \<lparr>pe_about = ''Beta''\<rparr>)]"
    "prefixes catalog_state =
      [(''release'', Prefix ''release'' ''old''), (''beta'', Prefix ''beta'' ''Beta'')]"
    by (simp_all add: catalog_state_def sample_state_def)
  show ?thesis
    using h remote_prefixes_win [OF h]
    unfolding r i by (auto simp: keys_def contains_def entryAt_def)
qed

subsection \<open>Local-version discovery\<close>

lemma warnings_append [simp]: "warnings (xs @ ys) = warnings xs @ warnings ys"
  by (induction xs rule: warnings.induct) auto

lemma disk_log [simp]:
  "disk (log_info m st) = disk st" "disk (log_warning m st) = disk st"
  "disk (log_error m st) = disk st"
  by (simp_all add: log_info_def log_warning_def log_error_def perform_def)

lemma scanVersions_prefix:
  "fst (scanVersions e prefixId prefixPath vs (p, st)) =
     p\<lparr>p_versions := p_versions p @ filter (isLocalVersion e st prefixPath) vs\<rparr>"
proof (induction vs arbitrary: p st)
  case Nil
  then show ?case by simp
next
  case (Cons v vs)
  have w: "isLocalVersion e (log_warning m st) prefixPath = isLocalVersion e st prefixPath" for m
    by (rule ext) (simp add: isLocalVersion_def)
  have i: "isLocalVersion e (log_info m st) prefixPath = isLocalVersion e st prefixPath" for m
    by (rule ext) (simp add: isLocalVersion_def)
  show ?case
    by (cases "disk st (localIndexPath prefixPath v)")
       (simp_all add: Cons.IH w i Let_def isLocalVersion_def localIndexPath_def)
qed

lemma scanVersions_state:
  "snd (scanVersions e prefixId prefixPath vs (p, st)) =
     st\<lparr>events := events (snd (scanVersions e prefixId prefixPath vs (p, st)))\<rparr>"
proof (induction vs arbitrary: p st)
  case Nil
  then show ?case by simp
next
  case (Cons v vs)
  show ?case
    apply (cases "disk st (localIndexPath prefixPath v)")
     apply (simp add: localIndexPath_def Let_def)
     apply (rule Cons.IH)
    apply (simp add: localIndexPath_def Let_def)
    apply (intro conjI impI)
     apply (subst Cons.IH) apply (subst (2) Cons.IH)
     apply (simp add: log_warning_def perform_def)
    apply (subst Cons.IH) apply (subst (2) Cons.IH)
    apply (simp add: log_info_def perform_def)
    done
qed

lemma scanVersions_warnings:
  "warnings (events (snd (scanVersions e prefixId prefixPath vs (p, st)))) =
     warnings (events st) @ concat (map (wrongIdWarning e st prefixPath) vs)"
proof (induction vs arbitrary: p st)
  case Nil
  then show ?case by simp
next
  case (Cons v vs)
  have w: "wrongIdWarning e (log_warning m st) prefixPath = wrongIdWarning e st prefixPath" for m
    by (rule ext) (simp add: wrongIdWarning_def)
  have i: "wrongIdWarning e (log_info m st) prefixPath = wrongIdWarning e st prefixPath" for m
    by (rule ext) (simp add: wrongIdWarning_def)
  show ?case
    by (cases "disk st (localIndexPath prefixPath v)")
       (simp_all add: Cons.IH w i Let_def wrongIdWarning_def localIndexPath_def
          log_warning_def log_info_def perform_def)
qed


lemma scanVersions_fields [simp]:
  "prefixes (snd (scanVersions e prefixId prefixPath vs (p, st))) = prefixes st"
  "disk (snd (scanVersions e prefixId prefixPath vs (p, st))) = disk st"
  "versionsPath (snd (scanVersions e prefixId prefixPath vs (p, st))) = versionsPath st"
  by (subst scanVersions_state, simp)+

lemma versionsOf_findLocalVersions:
  "versionsOf (findLocalVersions e prefixId st) prefixId =
     sort_desc (versionsOf st prefixId @ localVersions e st prefixId)"
  by (simp add: findLocalVersions_def Let_def case_prod_beta versionsOf_def
      scanVersions_prefix localVersions_def)

lemma latestOf_findLocalVersions:
  "latestOf (findLocalVersions e prefixId st) prefixId =
     (if 1 < length (versionsOf (findLocalVersions e prefixId st) prefixId)
      then versionsOf (findLocalVersions e prefixId st) prefixId ! 1
      else latestOf st prefixId)"
  by (simp add: findLocalVersions_def Let_def case_prod_beta versionsOf_def latestOf_def
      scanVersions_prefix localVersions_def)

lemma findLocalVersions_fields [simp]:
  "disk (findLocalVersions e prefixId st) = disk st"
  "versionsPath (findLocalVersions e prefixId st) = versionsPath st"
  by (simp_all add: findLocalVersions_def Let_def case_prod_beta)

lemma isLocalVersion_findLocalVersions [simp]:
  "isLocalVersion e (findLocalVersions e prefixId st) = isLocalVersion e st"
  by (intro ext) (simp add: isLocalVersion_def)

lemma localVersions_findLocalVersions [simp]:
  "localVersions e (findLocalVersions e prefixId st) p = localVersions e st p"
  by (simp add: localVersions_def)

lemma warnings_findLocalVersions:
  "warnings (events (findLocalVersions e prefixId st)) =
     warnings (events st) @
     concat (map (wrongIdWarning e st (arg2 (versionsPath st) prefixId))
               (entryList e (arg2 (versionsPath st) prefixId)))"
  by (simp add: findLocalVersions_def Let_def case_prod_beta scanVersions_warnings)

lemma sort_desc_idem [simp]: "sort_desc (sort_desc xs) = sort_desc xs"
proof -
  have "sort (rev (sort xs)) = sort xs"
    by (rule properties_for_sort) simp_all
  then show ?thesis
    by (simp add: sort_desc_def)
qed

text \<open>
  C5: after the scan of a prefix, when its version list has more than one element the
  latest-version pointer is the second element of the descending list, and otherwise the
  pointer is as it was. The constructor scans a prefix it has just created, whose list is
  empty: the list is then the descending sort of the accepted local versions, and the
  condition is one on their number.
\<close>

theorem latest_is_second:
  "(1 < length (versionsOf (findLocalVersions e prefixId st) prefixId) \<longrightarrow>
      latestOf (findLocalVersions e prefixId st) prefixId =
        versionsOf (findLocalVersions e prefixId st) prefixId ! 1)
   \<and> (length (versionsOf (findLocalVersions e prefixId st) prefixId) \<le> 1 \<longrightarrow>
      latestOf (findLocalVersions e prefixId st) prefixId = latestOf st prefixId)
   \<and> sorted_desc (versionsOf (findLocalVersions e prefixId st) prefixId)
   \<and> (versionsOf st prefixId = [] \<longrightarrow>
      versionsOf (findLocalVersions e prefixId st) prefixId =
        sort_desc (localVersions e st prefixId)
      \<and> (1 < length (localVersions e st prefixId) \<longrightarrow>
           latestOf (findLocalVersions e prefixId st) prefixId =
             sort_desc (localVersions e st prefixId) ! 1)
      \<and> (length (localVersions e st prefixId) \<le> 1 \<longrightarrow>
           latestOf (findLocalVersions e prefixId st) prefixId = latestOf st prefixId))"
proof -
  let ?vs = "versionsOf (findLocalVersions e prefixId st) prefixId"
  have a: "1 < length ?vs \<longrightarrow> latestOf (findLocalVersions e prefixId st) prefixId = ?vs ! 1"
    by (subst latestOf_findLocalVersions) simp
  have b: "length ?vs \<le> 1 \<longrightarrow> latestOf (findLocalVersions e prefixId st) prefixId = latestOf st prefixId"
    by (subst latestOf_findLocalVersions) simp
  have c: "sorted_desc ?vs"
    by (simp add: versionsOf_findLocalVersions)
  have d: "?vs = sort_desc (localVersions e st prefixId)" if "versionsOf st prefixId = []"
    using that by (simp add: versionsOf_findLocalVersions)
  have l: "length ?vs = length (localVersions e st prefixId)" if "versionsOf st prefixId = []"
    using that by (simp add: versionsOf_findLocalVersions)
  show ?thesis
    using a b c d l by metis
qed


lemma tree_localVersions:
  "localVersions (tree_env [''1.0'', ''0.9'', ''0.8'']) tree_state ''release'' = [''0.9'', ''0.8'']"
  by (simp add: localVersions_def isLocalVersion_def localIndexPath_def arg2_def tree_env_def
      tree_state_def sample_env_def sample_state_def VersionIndex_def jvalue_def)

lemma tree_versionsOf: "versionsOf tree_state ''release'' = []"
  by (simp add: versionsOf_def prefixAt_def tree_state_def sample_state_def Prefix_def)

lemma tree_latestOf: "latestOf tree_state ''release'' = []"
  by (simp add: latestOf_def prefixAt_def tree_state_def sample_state_def Prefix_def)

theorem latest_is_second_witness:
  "versionsOf tree_state ''release'' = []
   \<and> 1 < length (localVersions (tree_env [''1.0'', ''0.9'', ''0.8'']) tree_state ''release'')
   \<and> versionsOf (findLocalVersions (tree_env [''1.0'', ''0.9'', ''0.8'']) ''release'' tree_state)
        ''release'' = [''0.9'', ''0.8'']
   \<and> latestOf (findLocalVersions (tree_env [''1.0'', ''0.9'', ''0.8'']) ''release'' tree_state)
        ''release'' = ''0.8''"
  using latest_is_second [of "tree_env [''1.0'', ''0.9'', ''0.8'']" "''release''" tree_state]
  by (simp add: tree_localVersions tree_versionsOf sort_desc_def)

text \<open>
  C7: a version directory whose readable index holds another id than the name of the
  directory is not accepted and, unless the list held it before the scan, is not in the
  version list afterwards; the warning naming the index file and the id it holds is
  logged; and every directory of the listing that is acceptable, before or after the
  offending one, is in the version list afterwards.
\<close>

theorem wrong_id_excluded:
  assumes "v \<in> set (entryList e (arg2 (versionsPath st) prefixId))"
    and "disk st (localIndexPath (arg2 (versionsPath st) prefixId) v) = Some content"
    and "vi_id (VersionIndex (toObject (fromJson e content))) \<noteq> v"
  shows "v \<notin> set (localVersions e st prefixId)
       \<and> (v \<notin> set (versionsOf st prefixId) \<longrightarrow>
            v \<notin> set (versionsOf (findLocalVersions e prefixId st) prefixId))
       \<and> (''A version index '' @ quoted (localIndexPath (arg2 (versionsPath st) prefixId) v) @
            '' contains the wrong version id '' @
            quoted (vi_id (VersionIndex (toObject (fromJson e content)))))
           \<in> set (warnings (events (findLocalVersions e prefixId st)))
       \<and> (\<forall>w \<in> set (entryList e (arg2 (versionsPath st) prefixId)).
            isLocalVersion e st (arg2 (versionsPath st) prefixId) w \<longrightarrow>
              w \<in> set (versionsOf (findLocalVersions e prefixId st) prefixId))"
proof -
  have n: "\<not> isLocalVersion e st (arg2 (versionsPath st) prefixId) v"
    using assms(2,3) by (simp add: isLocalVersion_def)
  have a: "v \<notin> set (localVersions e st prefixId)"
    using n by (simp add: localVersions_def)
  have b: "v \<notin> set (versionsOf (findLocalVersions e prefixId st) prefixId)"
    if "v \<notin> set (versionsOf st prefixId)"
    using that a by (simp add: versionsOf_findLocalVersions)
  have "wrongIdWarning e st (arg2 (versionsPath st) prefixId) v =
      [''A version index '' @ quoted (localIndexPath (arg2 (versionsPath st) prefixId) v) @
       '' contains the wrong version id '' @
       quoted (vi_id (VersionIndex (toObject (fromJson e content))))]"
    using assms(2,3) by (simp add: wrongIdWarning_def)
  then have c: "(''A version index '' @ quoted (localIndexPath (arg2 (versionsPath st) prefixId) v) @
       '' contains the wrong version id '' @
       quoted (vi_id (VersionIndex (toObject (fromJson e content)))))
      \<in> set (warnings (events (findLocalVersions e prefixId st)))"
    using assms(1) by (force simp: warnings_findLocalVersions)
  have d: "\<forall>w \<in> set (entryList e (arg2 (versionsPath st) prefixId)).
      isLocalVersion e st (arg2 (versionsPath st) prefixId) w \<longrightarrow>
        w \<in> set (versionsOf (findLocalVersions e prefixId st) prefixId)"
    by (simp add: versionsOf_findLocalVersions localVersions_def)
  show ?thesis
    using a b c d by blast
qed

theorem wrong_id_excluded_witness:
  "''1.0'' \<in> set (entryList (tree_env [''1.0'', ''0.9'', ''0.8''])
       (arg2 (versionsPath tree_state) ''release''))
   \<and> disk tree_state (localIndexPath (arg2 (versionsPath tree_state) ''release'') ''1.0'') =
       Some ''1.1''
   \<and> vi_id (VersionIndex (toObject (fromJson (tree_env [''1.0'', ''0.9'', ''0.8'']) ''1.1''))) \<noteq>
       ''1.0''
   \<and> ''1.0'' \<notin> set (versionsOf
        (findLocalVersions (tree_env [''1.0'', ''0.9'', ''0.8'']) ''release'' tree_state) ''release'')
   \<and> warnings (events
        (findLocalVersions (tree_env [''1.0'', ''0.9'', ''0.8'']) ''release'' tree_state)) \<noteq> []
   \<and> ''0.9'' \<in> set (versionsOf
        (findLocalVersions (tree_env [''1.0'', ''0.9'', ''0.8'']) ''release'' tree_state) ''release'')
   \<and> ''0.8'' \<in> set (versionsOf
        (findLocalVersions (tree_env [''1.0'', ''0.9'', ''0.8'']) ''release'' tree_state) ''release'')"
proof -
  have h: "''1.0'' \<in> set (entryList (tree_env [''1.0'', ''0.9'', ''0.8''])
       (arg2 (versionsPath tree_state) ''release''))"
    "disk tree_state (localIndexPath (arg2 (versionsPath tree_state) ''release'') ''1.0'') =
       Some ''1.1''"
    "vi_id (VersionIndex (toObject (fromJson (tree_env [''1.0'', ''0.9'', ''0.8'']) ''1.1''))) \<noteq>
       ''1.0''"
    by (simp_all add: localIndexPath_def arg2_def tree_env_def tree_state_def sample_env_def
        sample_state_def VersionIndex_def jvalue_def)
  have "isLocalVersion (tree_env [''1.0'', ''0.9'', ''0.8'']) tree_state
      (arg2 (versionsPath tree_state) ''release'') ''0.9''"
    "isLocalVersion (tree_env [''1.0'', ''0.9'', ''0.8'']) tree_state
      (arg2 (versionsPath tree_state) ''release'') ''0.8''"
    "''0.9'' \<in> set (entryList (tree_env [''1.0'', ''0.9'', ''0.8''])
       (arg2 (versionsPath tree_state) ''release''))"
    "''0.8'' \<in> set (entryList (tree_env [''1.0'', ''0.9'', ''0.8''])
       (arg2 (versionsPath tree_state) ''release''))"
    by (simp_all add: isLocalVersion_def localIndexPath_def arg2_def tree_env_def tree_state_def
        sample_env_def sample_state_def VersionIndex_def jvalue_def)
  then show ?thesis
    using h wrong_id_excluded [OF h] tree_versionsOf by force
qed

subsection \<open>The per-version manifest fetch flow\<close>

lemma requests_append [simp]: "requests (xs @ ys) = requests xs @ requests ys"
  by (induction xs rule: requests.induct) auto

lemma emitted_append [simp]: "emitted (xs @ ys) = emitted xs @ emitted ys"
  by (induction xs rule: emitted.induct) auto

lemma perform_fields [simp]:
  "storeUrl (perform ev st) = storeUrl st"
  "dataPath (perform ev st) = dataPath st"
  "versionsPath (perform ev st) = versionsPath st"
  "indexPath (perform ev st) = indexPath st"
  "fetchingPrefixes (perform ev st) = fetchingPrefixes st"
  "fetchingVersionIndexes (perform ev st) = fetchingVersionIndexes st"
  "events (perform ev st) = events st @ [ev]"
  "disk (perform ev st) = fs_effect ev (disk st)"
  by (simp_all add: perform_def)

lemmas io_defs = log_info_def log_warning_def log_error_def mkpath_def
  file_open_WriteOnly_def file_write_def makeGetRequest_def

lemma setFetchVersionIndexesResult_obs:
  "requests (events (setFetchVersionIndexesResult r st)) = requests (events st)"
  "emitted (events (setFetchVersionIndexesResult r st)) =
     emitted (events st) @ [onFetchVersionIndexesResult r]"
  "fetchingVersionIndexes (setFetchVersionIndexesResult r st) = False"
  by (simp_all add: setFetchVersionIndexesResult_def io_defs)

lemma fetchVersionDataIndex_obs:
  "requests (events (fetchVersionDataIndex e version st)) =
     requests (events st) @ [dataIndexLocation (storeUrl st) version]"
  "emitted (events (fetchVersionDataIndex e version st)) =
     emitted (events st) @ [onFetchVersionIndexesResult (dataStageOk e st version)]"
  "fetchingVersionIndexes (fetchVersionDataIndex e version st) = False"
  by (cases "net e (dataIndexLocation (storeUrl st) version)";
      simp add: fetchVersionDataIndex_def dataStageOk_def setFetchVersionIndexesResult_obs
        io_defs Let_def)+


lemma fetchVersionAssetsIndex_obs:
  "requests (events (fetchVersionAssetsIndex e version assets st)) =
     requests (events st) @
     (if assets = [] then []
      else assetsIndexLocation (storeUrl st) assets #
           (if replyOk (net e (assetsIndexLocation (storeUrl st) assets))
               \<and> canOpenWrite e (assetsIndexLocation (dataPath st) assets)
            then [dataIndexLocation (storeUrl st) version] else []))"
  "emitted (events (fetchVersionAssetsIndex e version assets st)) =
     emitted (events st) @
     [onFetchVersionIndexesResult
        (assets \<noteq> [] \<and> replyOk (net e (assetsIndexLocation (storeUrl st) assets))
         \<and> canOpenWrite e (assetsIndexLocation (dataPath st) assets)
         \<and> dataStageOk e st version)]"
  "fetchingVersionIndexes (fetchVersionAssetsIndex e version assets st) = False"
  by (cases "net e (assetsIndexLocation (storeUrl st) assets)";
      simp add: fetchVersionAssetsIndex_def fetchVersionDataIndex_obs dataStageOk_def
        setFetchVersionIndexesResult_obs io_defs Let_def)+

lemma fetchVersionMainIndex_obs:
  "requests (events (fetchVersionMainIndex e version st)) =
     requests (events st) @
     versionIndexLocation (storeUrl st) version #
     (if mainStageOk e st version
      then assetsIndexLocation (storeUrl st) (assetsRef e st version) #
           (if assetsStageOk e st version then [dataIndexLocation (storeUrl st) version] else [])
      else [])"
  "emitted (events (fetchVersionMainIndex e version st)) =
     emitted (events st) @
     [onFetchVersionIndexesResult
        (mainStageOk e st version \<and> assetsStageOk e st version \<and> dataStageOk e st version)]"
  "fetchingVersionIndexes (fetchVersionMainIndex e version st) = False"
  by (cases "net e (versionIndexLocation (storeUrl st) version)";
      simp add: fetchVersionMainIndex_def fetchVersionAssetsIndex_obs dataStageOk_def
        assetsStageOk_def mainStageOk_def assetsRef_def
        setFetchVersionIndexesResult_obs io_defs Let_def)+

lemma fetchVersionDataIndex_disk_eq:
  "disk (fetchVersionDataIndex e version st) =
     (if dataStageOk e st version
      then (disk st)(dataIndexLocation (versionsPath st) version \<mapsto>
             stored e (dataIndexLocation (versionsPath st) version)
               (payload (net e (dataIndexLocation (storeUrl st) version))))
      else disk st)"
  by (cases "net e (dataIndexLocation (storeUrl st) version)";
      cases "canOpenWrite e (dataIndexLocation (versionsPath st) version)";
      simp add: fetchVersionDataIndex_def dataStageOk_def setFetchVersionIndexesResult_def
        stored_def io_defs Let_def)

lemma fetchVersionAssetsIndex_disk_eq:
  "disk (fetchVersionAssetsIndex e version assets st) =
     (if assets \<noteq> [] \<and> replyOk (net e (assetsIndexLocation (storeUrl st) assets))
         \<and> canOpenWrite e (assetsIndexLocation (dataPath st) assets)
      then (if dataStageOk e st version
            then (disk st)
                   (assetsIndexLocation (dataPath st) assets \<mapsto>
                      stored e (assetsIndexLocation (dataPath st) assets)
                        (payload (net e (assetsIndexLocation (storeUrl st) assets))),
                    dataIndexLocation (versionsPath st) version \<mapsto>
                      stored e (dataIndexLocation (versionsPath st) version)
                        (payload (net e (dataIndexLocation (storeUrl st) version))))
            else (disk st)
                   (assetsIndexLocation (dataPath st) assets \<mapsto>
                      stored e (assetsIndexLocation (dataPath st) assets)
                        (payload (net e (assetsIndexLocation (storeUrl st) assets)))))
      else disk st)"
  by (cases "net e (assetsIndexLocation (storeUrl st) assets)";
      cases "canOpenWrite e (assetsIndexLocation (dataPath st) assets)";
      simp add: fetchVersionAssetsIndex_def fetchVersionDataIndex_disk_eq dataStageOk_def
        setFetchVersionIndexesResult_def stored_def io_defs Let_def)

lemma fetchVersionIndexes_disk_eq:
  assumes "\<not> fetchingVersionIndexes st"
    and "net e (versionIndexLocation (storeUrl st) version) = NoError content"
    and "canOpenWrite e (versionIndexLocation (versionsPath st) version)"
  shows "disk (fetchVersionIndexes e version st) =
     (if assetsRef e st version \<noteq> [] \<and> assetsStageOk e st version
      then (if dataStageOk e st version
            then (disk st)
                   (versionIndexLocation (versionsPath st) version \<mapsto>
                      stored e (versionIndexLocation (versionsPath st) version) content,
                    assetsIndexLocation (dataPath st) (assetsRef e st version) \<mapsto>
                      stored e (assetsIndexLocation (dataPath st) (assetsRef e st version))
                        (payload (net e (assetsIndexLocation (storeUrl st) (assetsRef e st version)))),
                    dataIndexLocation (versionsPath st) version \<mapsto>
                      stored e (dataIndexLocation (versionsPath st) version)
                        (payload (net e (dataIndexLocation (storeUrl st) version))))
            else (disk st)
                   (versionIndexLocation (versionsPath st) version \<mapsto>
                      stored e (versionIndexLocation (versionsPath st) version) content,
                    assetsIndexLocation (dataPath st) (assetsRef e st version) \<mapsto>
                      stored e (assetsIndexLocation (dataPath st) (assetsRef e st version))
                        (payload (net e (assetsIndexLocation (storeUrl st) (assetsRef e st version))))))
      else (disk st)(versionIndexLocation (versionsPath st) version \<mapsto>
              stored e (versionIndexLocation (versionsPath st) version) content))"
  using assms
  by (simp add: fetchVersionIndexes_def fetchVersionMainIndex_def
      fetchVersionAssetsIndex_disk_eq assetsStageOk_def assetsRef_def dataStageOk_def
      stored_def io_defs Let_def)


lemma fetchVersionIndexes_disk_all:
  assumes "\<not> fetchingVersionIndexes st"
  shows "disk (fetchVersionIndexes e version st) =
     (if replyOk (net e (versionIndexLocation (storeUrl st) version))
         \<and> canOpenWrite e (versionIndexLocation (versionsPath st) version)
      then (if mainStageOk e st version \<and> assetsStageOk e st version
            then (if dataStageOk e st version
                  then (disk st)
                    (versionIndexLocation (versionsPath st) version \<mapsto>
                       stored e (versionIndexLocation (versionsPath st) version)
                         (payload (net e (versionIndexLocation (storeUrl st) version))),
                     assetsIndexLocation (dataPath st) (assetsRef e st version) \<mapsto>
                       stored e (assetsIndexLocation (dataPath st) (assetsRef e st version))
                         (payload (net e (assetsIndexLocation (storeUrl st)
                            (assetsRef e st version)))),
                     dataIndexLocation (versionsPath st) version \<mapsto>
                       stored e (dataIndexLocation (versionsPath st) version)
                         (payload (net e (dataIndexLocation (storeUrl st) version))))
                  else (disk st)
                    (versionIndexLocation (versionsPath st) version \<mapsto>
                       stored e (versionIndexLocation (versionsPath st) version)
                         (payload (net e (versionIndexLocation (storeUrl st) version))),
                     assetsIndexLocation (dataPath st) (assetsRef e st version) \<mapsto>
                       stored e (assetsIndexLocation (dataPath st) (assetsRef e st version))
                         (payload (net e (assetsIndexLocation (storeUrl st)
                            (assetsRef e st version))))))
            else (disk st)
                    (versionIndexLocation (versionsPath st) version \<mapsto>
                       stored e (versionIndexLocation (versionsPath st) version)
                         (payload (net e (versionIndexLocation (storeUrl st) version)))))
      else disk st)"
proof (cases "net e (versionIndexLocation (storeUrl st) version)")
  case (NetworkError err)
  with assms show ?thesis
    by (simp add: fetchVersionIndexes_def fetchVersionMainIndex_def
        setFetchVersionIndexesResult_def io_defs)
next
  case (NoError content)
  show ?thesis
  proof (cases "canOpenWrite e (versionIndexLocation (versionsPath st) version)")
    case True
    have "mainStageOk e st version = (assetsRef e st version \<noteq> [])"
      using NoError True by (simp add: mainStageOk_def)
    then show ?thesis
      using NoError True by (simp add: fetchVersionIndexes_disk_eq [OF assms NoError True])
  next
    case False
    with assms NoError show ?thesis
      by (simp add: fetchVersionIndexes_def fetchVersionMainIndex_def
          setFetchVersionIndexesResult_def io_defs Let_def)
  qed
qed

text \<open>
  C3, amended: the flow requests the version descriptor, then the assets descriptor, then
  the data descriptor, each only when the stage before it has gone through, and emits one
  result, which is success exactly when all three stages go through. A stage goes through
  when its reply has no error and its local file opens for writing; the first stage needs
  the parsed assets-index reference to be non-empty as well. A failed fetch, a file that
  does not open or an empty reference makes the result a failure and leaves the later
  requests out. Every descriptor that has been fetched and whose file has opened is
  handed to a write to that file, and no other file is touched. At the end the flow is no
  longer in progress.
\<close>

theorem version_flow_stages:
  assumes "\<not> fetchingVersionIndexes st"
  shows "requests (events (fetchVersionIndexes e version st)) =
           requests (events st) @
           versionIndexLocation (storeUrl st) version #
           (if mainStageOk e st version
            then assetsIndexLocation (storeUrl st) (assetsRef e st version) #
                 (if assetsStageOk e st version
                  then [dataIndexLocation (storeUrl st) version] else [])
            else [])
       \<and> emitted (events (fetchVersionIndexes e version st)) =
           emitted (events st) @
           [onFetchVersionIndexesResult
              (mainStageOk e st version \<and> assetsStageOk e st version
               \<and> dataStageOk e st version)]
       \<and> \<not> fetchingVersionIndexes (fetchVersionIndexes e version st)
       \<and> disk (fetchVersionIndexes e version st) =
           (if replyOk (net e (versionIndexLocation (storeUrl st) version))
               \<and> canOpenWrite e (versionIndexLocation (versionsPath st) version)
            then (if mainStageOk e st version \<and> assetsStageOk e st version
                  then (if dataStageOk e st version
                        then (disk st)
                          (versionIndexLocation (versionsPath st) version \<mapsto>
                             stored e (versionIndexLocation (versionsPath st) version)
                               (payload (net e (versionIndexLocation (storeUrl st) version))),
                           assetsIndexLocation (dataPath st) (assetsRef e st version) \<mapsto>
                             stored e (assetsIndexLocation (dataPath st) (assetsRef e st version))
                               (payload (net e (assetsIndexLocation (storeUrl st)
                                  (assetsRef e st version)))),
                           dataIndexLocation (versionsPath st) version \<mapsto>
                             stored e (dataIndexLocation (versionsPath st) version)
                               (payload (net e (dataIndexLocation (storeUrl st) version))))
                        else (disk st)
                          (versionIndexLocation (versionsPath st) version \<mapsto>
                             stored e (versionIndexLocation (versionsPath st) version)
                               (payload (net e (versionIndexLocation (storeUrl st) version))),
                           assetsIndexLocation (dataPath st) (assetsRef e st version) \<mapsto>
                             stored e (assetsIndexLocation (dataPath st) (assetsRef e st version))
                               (payload (net e (assetsIndexLocation (storeUrl st)
                                  (assetsRef e st version))))))
                  else (disk st)
                          (versionIndexLocation (versionsPath st) version \<mapsto>
                             stored e (versionIndexLocation (versionsPath st) version)
                               (payload (net e (versionIndexLocation (storeUrl st) version)))))
            else disk st)"
proof -
  have 1: "requests (events (fetchVersionIndexes e version st)) =
           requests (events st) @
           versionIndexLocation (storeUrl st) version #
           (if mainStageOk e st version
            then assetsIndexLocation (storeUrl st) (assetsRef e st version) #
                 (if assetsStageOk e st version
                  then [dataIndexLocation (storeUrl st) version] else [])
            else [])"
    using assms
    by (simp add: fetchVersionIndexes_def fetchVersionMainIndex_obs mainStageOk_def
        assetsStageOk_def dataStageOk_def assetsRef_def io_defs)
  have 2: "emitted (events (fetchVersionIndexes e version st)) =
           emitted (events st) @
           [onFetchVersionIndexesResult
              (mainStageOk e st version \<and> assetsStageOk e st version
               \<and> dataStageOk e st version)]"
    using assms
    by (simp add: fetchVersionIndexes_def fetchVersionMainIndex_obs mainStageOk_def
        assetsStageOk_def dataStageOk_def assetsRef_def io_defs)
  have 3: "\<not> fetchingVersionIndexes (fetchVersionIndexes e version st)"
    using assms by (simp add: fetchVersionIndexes_def fetchVersionMainIndex_obs)
  show ?thesis
    by (intro conjI 1 2 3 fetchVersionIndexes_disk_all [OF assms])
qed

lemmas flow_sample_defs = flow_env_def release_1_0_def sample_env_def sample_state_def
  mainStageOk_def assetsStageOk_def dataStageOk_def assetsRef_def versionIndexLocation_def
  assetsIndexLocation_def dataIndexLocation_def VersionIndex_def jvalue_def jcontains_def

theorem version_flow_stages_witness:
  "\<not> fetchingVersionIndexes sample_state
   \<and> requests (events (fetchVersionIndexes (flow_env True []) release_1_0 sample_state)) =
       [''http://store/release/1.0/1.0.json'', ''http://store/assets/indexes/1.0.json'',
        ''http://store/release/1.0/data.json'']
   \<and> emitted (events (fetchVersionIndexes (flow_env True []) release_1_0 sample_state)) =
       [onFetchVersionIndexesResult True]
   \<and> disk (fetchVersionIndexes (flow_env True []) release_1_0 sample_state)
       ''/data/versions/release/1.0/data.json'' = Some ''1.0''
   \<and> requests (events (fetchVersionIndexes
         (flow_env True [''http://store/assets/indexes/1.0.json'']) release_1_0 sample_state)) =
       [''http://store/release/1.0/1.0.json'', ''http://store/assets/indexes/1.0.json'']
   \<and> emitted (events (fetchVersionIndexes
         (flow_env True [''http://store/assets/indexes/1.0.json'']) release_1_0 sample_state)) =
       [onFetchVersionIndexesResult False]
   \<and> requests (events (fetchVersionIndexes (flow_env False []) release_1_0 sample_state)) =
       [''http://store/release/1.0/1.0.json'']
   \<and> emitted (events (fetchVersionIndexes (flow_env False []) release_1_0 sample_state)) =
       [onFetchVersionIndexesResult False]"
  using version_flow_stages [of sample_state "flow_env True []" release_1_0]
    version_flow_stages [of sample_state
      "flow_env True [''http://store/assets/indexes/1.0.json'']" release_1_0]
    version_flow_stages [of sample_state "flow_env False []" release_1_0]
  by (simp add: flow_sample_defs stored_def)

lemma setFetchVersionIndexesResult_extends:
  "\<exists>rest. events (setFetchVersionIndexesResult r st) = events st @ rest"
  by (simp add: setFetchVersionIndexesResult_def io_defs)






lemma fetchVersionIndexes_emitted:
  "\<not> fetchingVersionIndexes st \<Longrightarrow>
     emitted (events (fetchVersionIndexes e version st)) =
       emitted (events st) @
       [onFetchVersionIndexesResult
          (mainStageOk e st version \<and> assetsStageOk e st version \<and> dataStageOk e st version)]"
  by (simp add: fetchVersionIndexes_def fetchVersionMainIndex_obs mainStageOk_def
      assetsStageOk_def dataStageOk_def assetsRef_def io_defs)

text \<open>
  C3, as stated, fails: with every descriptor fetched and every file opened, the flow
  reports success although none of the three writes stores a byte.
\<close>

theorem failed_writes_report_success:
  "payload (net short_write_env ''http://store/release/1.0/1.0.json'') = ''1.0''
   \<and> bytesWritten short_write_env ''/data/versions/release/1.0/1.0.json'' ''1.0'' = 0
   \<and> emitted (events (fetchVersionIndexes short_write_env release_1_0 sample_state)) =
       [onFetchVersionIndexesResult True]
   \<and> disk (fetchVersionIndexes short_write_env release_1_0 sample_state)
       ''/data/versions/release/1.0/1.0.json'' = Some []
   \<and> disk (fetchVersionIndexes short_write_env release_1_0 sample_state)
       ''/data/assets/indexes/1.0.json'' = Some []
   \<and> disk (fetchVersionIndexes short_write_env release_1_0 sample_state)
       ''/data/versions/release/1.0/data.json'' = Some []"
proof -
  have h: "\<not> fetchingVersionIndexes sample_state"
    "net short_write_env (versionIndexLocation (storeUrl sample_state) release_1_0) =
       NoError ''1.0''"
    "canOpenWrite short_write_env (versionIndexLocation (versionsPath sample_state) release_1_0)"
    by (simp_all add: short_write_env_def flow_sample_defs)
  have r: "assetsRef short_write_env sample_state release_1_0 = ''1.0''"
    by (simp add: short_write_env_def flow_sample_defs)
  have s: "mainStageOk short_write_env sample_state release_1_0"
    "assetsStageOk short_write_env sample_state release_1_0"
    "dataStageOk short_write_env sample_state release_1_0"
    unfolding mainStageOk_def assetsStageOk_def dataStageOk_def r
    by (simp_all add: short_write_env_def flow_env_def release_1_0_def sample_env_def
        sample_state_def versionIndexLocation_def assetsIndexLocation_def dataIndexLocation_def)
  have p: "versionIndexLocation (versionsPath sample_state) release_1_0 =
      ''/data/versions/release/1.0/1.0.json''"
    "assetsIndexLocation (dataPath sample_state) ''1.0'' = ''/data/assets/indexes/1.0.json''"
    "dataIndexLocation (versionsPath sample_state) release_1_0 =
      ''/data/versions/release/1.0/data.json''"
    by (simp_all add: release_1_0_def sample_state_def versionIndexLocation_def
        assetsIndexLocation_def dataIndexLocation_def)
  have w: "stored short_write_env path data = []" for path data
    by (simp add: stored_def short_write_env_def flow_env_def sample_env_def)
  have n: "payload (net short_write_env ''http://store/release/1.0/1.0.json'') = ''1.0''"
    "bytesWritten short_write_env ''/data/versions/release/1.0/1.0.json'' ''1.0'' = 0"
    by (simp_all add: short_write_env_def flow_env_def sample_env_def)
  have e: "emitted (events (fetchVersionIndexes short_write_env release_1_0 sample_state)) =
      [onFetchVersionIndexesResult True]"
    using s by (simp add: fetchVersionIndexes_emitted [OF h(1)]) (simp add: sample_state_def)
  have d: "disk (fetchVersionIndexes short_write_env release_1_0 sample_state) =
      (disk sample_state)(''/data/versions/release/1.0/1.0.json'' \<mapsto> [],
         ''/data/assets/indexes/1.0.json'' \<mapsto> [],
         ''/data/versions/release/1.0/data.json'' \<mapsto> [])"
    using s by (simp add: fetchVersionIndexes_disk_eq [OF h] r w p)
  show ?thesis
    unfolding d using n e by simp
qed




subsection \<open>Persisting the prefixes index\<close>

lemma saveIndex_events_eq:
  "saveIndex_events e st =
     (if canOpenWrite e (indexPath st)
      then [OpenWrite (indexPath st) True,
            Write (indexPath st) (toJson e (toJsonObject e (index st)))
              (bytesWritten e (indexPath st) (toJson e (toJsonObject e (index st))))]
      else [OpenWrite (indexPath st) False])"
  by (simp add: saveIndex_events_def saveIndex_def io_defs Let_def)

lemma disk_points_two: "disk_points d [a, b] = [d, fs_effect a d, fs_effect b (fs_effect a d)]"
  by (simp add: disk_points_def upt_rec [of _ "Suc _"] upt_rec [of 0] numeral_2_eq_2)

lemma disk_points_one: "disk_points d [a] = [d, fs_effect a d]"
  by (simp add: disk_points_def upt_rec [of _ "Suc _"] upt_rec [of 0])

lemma saveIndex_points:
  "indexFile_points e st =
     (if canOpenWrite e (indexPath st)
      then [disk st (indexPath st), Some [],
            Some (stored e (indexPath st) (toJson e (toJsonObject e (index st))))]
      else [disk st (indexPath st), disk st (indexPath st)])"
  by (simp add: saveIndex_events_eq indexFile_points_def disk_points_two disk_points_one
      stored_def)

lemma saveIndex_disk:
  "disk (saveIndex e st) =
     (if canOpenWrite e (indexPath st)
      then (disk st)(indexPath st \<mapsto>
              stored e (indexPath st) (toJson e (toJsonObject e (index st))))
      else disk st)"
  by (simp add: saveIndex_def io_defs Let_def stored_def)

lemma mergePrefixes_fields [simp]:
  "disk (mergePrefixes r ids st) = disk st"
  "events (mergePrefixes r ids st) = events st"
  "indexPath (mergePrefixes r ids st) = indexPath st"
  "storeUrl (mergePrefixes r ids st) = storeUrl st"
  by (induction ids arbitrary: st; simp)+

lemma disk_setFetchPrefixesResult [simp]: "disk (setFetchPrefixesResult b st) = disk st"
  by (simp add: setFetchPrefixesResult_def log_info_def)

lemma disk_mergePrefixVersions [simp]: "disk (mergePrefixVersions e p c st) = disk st"
  by (simp add: mergePrefixVersions_def Let_def)

lemma disk_fetchNextPrefixOrFinish [simp]: "disk (fetchNextPrefixOrFinish e st) = disk st"
proof (induction e st rule: fetchNextPrefixOrFinish.induct)
  case (1 e st)
  show ?case
    by (subst fetchNextPrefixOrFinish.simps)
       (use 1 in \<open>auto split: list.splits reply.splits simp: io_defs\<close>)
qed

lemma fetchPrefixes_failed_open:
  assumes "\<not> fetchingPrefixes st"
    and "net e (storeUrl st @ ''/prefixes.json'') = NoError content"
    and "\<not> canOpenWrite e (indexPath st)"
  shows "emitted (events (fetchPrefixes e st)) =
           emitted (events st) @ [onFetchPrefixesResult False]"
    and "requests (events (fetchPrefixes e st)) =
           requests (events st) @ [storeUrl st @ ''/prefixes.json'']"
    and "disk (fetchPrefixes e st) = disk st"
  using assms
  by (simp_all add: fetchPrefixes_def Let_def saveIndex_def setFetchPrefixesResult_def io_defs)

lemma fetchPrefixes_disk:
  assumes "\<not> fetchingPrefixes st"
    and "net e (storeUrl st @ ''/prefixes.json'') = NoError content"
    and "canOpenWrite e (indexPath st)"
  shows "disk (fetchPrefixes e st) =
           (disk st)(indexPath st \<mapsto>
              stored e (indexPath st) (toJson e (toJsonObject e (index (fetchPrefixes e st)))))"
  using assms
  by (simp add: fetchPrefixes_def Let_def saveIndex_disk io_defs)


text \<open>
  C9, as stated, fails: between the open and the write the index file holds neither its
  previous content nor the new one.
\<close>

theorem index_file_empty_between_open_and_write:
  "disk indexed_state (indexPath indexed_state) = Some ''{old}''
   \<and> toJson sample_env (toJsonObject sample_env (index indexed_state)) = ''{}''
   \<and> indexFile_points sample_env indexed_state = [Some ''{old}'', Some [], Some ''{}'']
   \<and> \<not> (\<forall>c \<in> set (indexFile_points sample_env indexed_state).
          c = disk indexed_state (indexPath indexed_state)
          \<or> c = Some (toJson sample_env (toJsonObject sample_env (index indexed_state))))"
  by (simp add: saveIndex_points stored_def sample_env_def indexed_state_def sample_state_def)

text \<open>
  C9, amended: the prefixes index file is rewritten where it lies, with no temporary file
  and no rename: it is opened write-only at its own path, which truncates it, and the
  serialised index is then handed to one write. Before the open the file holds its
  previous content, between the open and the write it is empty, and after the write it
  holds the bytes the write has stored, which are the complete new content when the write
  succeeds; this is the file the prefix discovery flow leaves. When the file cannot be
  opened nothing is written, the disk is as it was, and the flow reports failure without
  requesting the versions of any prefix.
\<close>

theorem index_written_in_place:
  "saveIndex_events e st =
     (if canOpenWrite e (indexPath st)
      then [OpenWrite (indexPath st) True,
            Write (indexPath st) (toJson e (toJsonObject e (index st)))
              (bytesWritten e (indexPath st) (toJson e (toJsonObject e (index st))))]
      else [OpenWrite (indexPath st) False])
   \<and> indexFile_points e st =
     (if canOpenWrite e (indexPath st)
      then [disk st (indexPath st), Some [],
            Some (stored e (indexPath st) (toJson e (toJsonObject e (index st))))]
      else [disk st (indexPath st), disk st (indexPath st)])
   \<and> disk (saveIndex e st) =
     (if canOpenWrite e (indexPath st)
      then (disk st)(indexPath st \<mapsto>
              stored e (indexPath st) (toJson e (toJsonObject e (index st))))
      else disk st)
   \<and> (length (toJson e (toJsonObject e (index st))) \<le>
        bytesWritten e (indexPath st) (toJson e (toJsonObject e (index st))) \<longrightarrow>
      stored e (indexPath st) (toJson e (toJsonObject e (index st))) =
        toJson e (toJsonObject e (index st)))
   \<and> (\<not> fetchingPrefixes st \<and> net e (storeUrl st @ ''/prefixes.json'') = NoError content
      \<and> canOpenWrite e (indexPath st) \<longrightarrow>
      disk (fetchPrefixes e st) =
        (disk st)(indexPath st \<mapsto>
           stored e (indexPath st) (toJson e (toJsonObject e (index (fetchPrefixes e st))))))
   \<and> (\<not> fetchingPrefixes st \<and> net e (storeUrl st @ ''/prefixes.json'') = NoError content
      \<and> \<not> canOpenWrite e (indexPath st) \<longrightarrow>
      emitted (events (fetchPrefixes e st)) =
        emitted (events st) @ [onFetchPrefixesResult False]
      \<and> requests (events (fetchPrefixes e st)) =
        requests (events st) @ [storeUrl st @ ''/prefixes.json'']
      \<and> disk (fetchPrefixes e st) = disk st)"
proof -
  have 1: "length (toJson e (toJsonObject e (index st))) \<le>
        bytesWritten e (indexPath st) (toJson e (toJsonObject e (index st))) \<longrightarrow>
      stored e (indexPath st) (toJson e (toJsonObject e (index st))) =
        toJson e (toJsonObject e (index st))"
    by (simp add: stored_def)
  show ?thesis
    using saveIndex_events_eq [of e st] saveIndex_points [of e st] saveIndex_disk [of e st] 1
      fetchPrefixes_disk [of st e content] fetchPrefixes_failed_open [of st e content]
    by blast
qed

theorem index_written_in_place_witness:
  "canOpenWrite catalog_env (indexPath indexed_state)
   \<and> \<not> fetchingPrefixes indexed_state
   \<and> net catalog_env (storeUrl indexed_state @ ''/prefixes.json'') = NoError ''remote''
   \<and> saveIndex_events catalog_env indexed_state =
       [OpenWrite ''/data/versions/prefixes.json'' True,
        Write ''/data/versions/prefixes.json'' ''{}'' 2]
   \<and> disk (fetchPrefixes catalog_env indexed_state) ''/data/versions/prefixes.json'' =
       Some ''{}''
   \<and> \<not> canOpenWrite (catalog_env\<lparr>canOpenWrite := (\<lambda>path. False)\<rparr>) (indexPath indexed_state)
   \<and> emitted (events (fetchPrefixes (catalog_env\<lparr>canOpenWrite := (\<lambda>path. False)\<rparr>)
         indexed_state)) = [onFetchPrefixesResult False]
   \<and> requests (events (fetchPrefixes (catalog_env\<lparr>canOpenWrite := (\<lambda>path. False)\<rparr>)
         indexed_state)) = [''http://store/prefixes.json'']
   \<and> disk (fetchPrefixes (catalog_env\<lparr>canOpenWrite := (\<lambda>path. False)\<rparr>) indexed_state)
       ''/data/versions/prefixes.json'' = Some ''{old}''"
  using index_written_in_place [of catalog_env indexed_state "''remote''"]
    index_written_in_place [of "catalog_env\<lparr>canOpenWrite := (\<lambda>path. False)\<rparr>" indexed_state
      "''remote''"]
  by (simp add: catalog_env_def sample_env_def indexed_state_def sample_state_def stored_def)

subsection \<open>The manifest assembler\<close>

lemma libraryFiles_fields [simp]:
  "storeUrl (snd (libraryFiles e d libs (files, st))) = storeUrl st"
  "dataPath (snd (libraryFiles e d libs (files, st))) = dataPath st"
  "disk (snd (libraryFiles e d libs (files, st))) = disk st"
  by (induction libs arbitrary: files st; simp add: log_warning_def)+

lemma libraryFiles_files:
  "fst (libraryFiles e d libs (files, st)) =
     files @ map (libraryFile e st d) (applicableLibraries e d libs)"
proof (induction libs arbitrary: files st)
  case Nil
  then show ?case by (simp add: applicableLibraries_def)
next
  case (Cons libInfo libs)
  have w: "libraryFile e (log_warning m st) d = libraryFile e st d" for m
    by (rule ext) (simp add: libraryFile_def log_warning_def)
  show ?case
    using Cons.IH by (simp add: applicableLibraries_def w) (simp add: libraryFile_def)
qed

lemma loadIndex_log [simp]:
  "loadIndex e (log_info m st) path = loadIndex e st path"
  by (simp add: loadIndex_def log_info_def)

lemma loadIndex_libraryFiles [simp]:
  "loadIndex e (snd (libraryFiles e' d libs (files, st))) path = loadIndex e st path"
  by (simp add: loadIndex_def)

text \<open>
  C4: assembly reports success exactly when the data descriptor, the version descriptor
  and the assets descriptor it loads are all valid, and then the list it returns is the
  list it was given followed by the main artifact, the auxiliary files, the libraries
  that are allowed on the platform and known to the data descriptor, and the assets, in
  this order. With an invalid data descriptor it reports failure and adds nothing; with
  an invalid version descriptor it reports failure having added the main artifact and
  the auxiliary files only.
\<close>

theorem assembly_order:
  "fst (fillVersionFiles e version files st) =
     (dataIndex_isValid e (localDataIndex e st version)
      \<and> versionIndex_isValid e (localVersionIndex e st version)
      \<and> assetsIndex_isValid e (localAssetsIndex e st version))
   \<and> (dataIndex_isValid e (localDataIndex e st version)
      \<and> versionIndex_isValid e (localVersionIndex e st version)
      \<and> assetsIndex_isValid e (localAssetsIndex e st version) \<longrightarrow>
       fst (snd (fillVersionFiles e version files st)) =
         files @ [mainFile st version (localDataIndex e st version)]
           @ auxFiles st version (localDataIndex e st version)
           @ map (libraryFile e st (localDataIndex e st version))
               (applicableLibraries e (localDataIndex e st version)
                  (vi_libraries (localVersionIndex e st version)))
           @ assetFiles st (localAssetsIndex e st version))
   \<and> (\<not> dataIndex_isValid e (localDataIndex e st version) \<longrightarrow>
       fst (snd (fillVersionFiles e version files st)) = files)
   \<and> (dataIndex_isValid e (localDataIndex e st version)
      \<and> \<not> versionIndex_isValid e (localVersionIndex e st version) \<longrightarrow>
       fst (snd (fillVersionFiles e version files st)) =
         files @ [mainFile st version (localDataIndex e st version)]
           @ auxFiles st version (localDataIndex e st version))"
  by (simp add: fillVersionFiles_def Let_def case_prod_beta localDataIndex_def
      localVersionIndex_def localAssetsIndex_def libraryFiles_files)
     (simp add: libraryFile_def log_info_def)


lemmas assembly_sample_defs = assembly_env_def sample_env_def sample_state_def release_1_0_def
  localDataIndex_def localVersionIndex_def localAssetsIndex_def loadIndex_def
  VersionIndex_def jvalue_def jcontains_def

theorem assembly_order_witness:
  "dataIndex_isValid (assembly_env True True True)
     (localDataIndex (assembly_env True True True) sample_state release_1_0)
   \<and> versionIndex_isValid (assembly_env True True True)
     (localVersionIndex (assembly_env True True True) sample_state release_1_0)
   \<and> assetsIndex_isValid (assembly_env True True True)
     (localAssetsIndex (assembly_env True True True) sample_state release_1_0)
   \<and> fst (fillVersionFiles (assembly_env True True True) release_1_0 [] sample_state)
   \<and> map fi_path
       (fst (snd (fillVersionFiles (assembly_env True True True) release_1_0 [] sample_state))) =
       [''/data/versions/release/1.0/1.0.jar'',
        ''/data/versions/release/1.0/files/servers.dat'',
        ''/data/libraries/a/a.jar'',
        ''/data/assets/objects/ab/abcdef'']
   \<and> \<not> dataIndex_isValid (assembly_env False True True)
     (localDataIndex (assembly_env False True True) sample_state release_1_0)
   \<and> \<not> fst (fillVersionFiles (assembly_env False True True) release_1_0 [] sample_state)
   \<and> fst (snd (fillVersionFiles (assembly_env False True True) release_1_0 [] sample_state)) = []
   \<and> \<not> fst (fillVersionFiles (assembly_env True False True) release_1_0 [] sample_state)
   \<and> \<not> fst (fillVersionFiles (assembly_env True True False) release_1_0 [] sample_state)"
  using assembly_order [of "assembly_env True True True" release_1_0 "[]" sample_state]
    assembly_order [of "assembly_env False True True" release_1_0 "[]" sample_state]
    assembly_order [of "assembly_env True False True" release_1_0 "[]" sample_state]
    assembly_order [of "assembly_env True True False" release_1_0 "[]" sample_state]
  by (simp add: assembly_sample_defs mainFile_def auxFiles_def assetFiles_def libraryFile_def
      applicableLibraries_def FileInfo_def versionDir_def fv_toString_def arg2_def keys_def
      contains_def checkAt_def)

subsection \<open>Local-version discovery at startup\<close>

lemma versionsOf_findLocalVersions_other:
  "i \<noteq> j \<Longrightarrow> versionsOf (findLocalVersions e j st) i = versionsOf st i"
  by (simp add: findLocalVersions_def Let_def case_prod_beta versionsOf_def prefixAt_update_other)

lemma isLocalVersion_prefixes_update [simp]:
  "isLocalVersion e (st\<lparr>prefixes := h\<rparr>) = isLocalVersion e st"
  by (intro ext) (simp add: isLocalVersion_def)

lemma localVersions_prefixes_update [simp]:
  "localVersions e (st\<lparr>prefixes := h\<rparr>) i = localVersions e st i"
  by (simp add: localVersions_def)

lemma index_findLocalVersions [simp]: "index (findLocalVersions e j st) = index st"
  by (simp add: findLocalVersions_def Let_def case_prod_beta)
     (subst scanVersions_state, simp)

lemma versionsOf_discoverPrefix:
  "versionsOf (discoverPrefix e i about st) i = sort_desc (localVersions e st i)"
  by (simp add: discoverPrefix_def versionsOf_findLocalVersions)
     (simp add: versionsOf_def Prefix_def)

lemma versionsOf_discoverPrefix_other:
  "i \<noteq> j \<Longrightarrow> versionsOf (discoverPrefix e j about st) i = versionsOf st i"
  by (simp add: discoverPrefix_def versionsOf_findLocalVersions_other)
     (simp add: versionsOf_def prefixAt_update_other)

lemma discoverPrefix_fields [simp]:
  "disk (discoverPrefix e i about st) = disk st"
  "versionsPath (discoverPrefix e i about st) = versionsPath st"
  "index (discoverPrefix e i about st) = index st"
  by (simp_all add: discoverPrefix_def)

lemma localVersions_discoverPrefix [simp]:
  "localVersions e (discoverPrefix e i about st) j = localVersions e st j"
  by (simp add: discoverPrefix_def)

lemma versionsOf_loadPrefixes_other:
  "i \<notin> set ids \<Longrightarrow> versionsOf (loadPrefixes e ids st) i = versionsOf st i"
  by (induction ids arbitrary: st) (auto simp: versionsOf_discoverPrefix_other)

lemma localVersions_loadPrefixes [simp]:
  "localVersions e (loadPrefixes e ids st) i = localVersions e st i"
  by (induction ids arbitrary: st) auto

lemma loadPrefixes_fields [simp]:
  "disk (loadPrefixes e ids st) = disk st"
  "index (loadPrefixes e ids st) = index st"
  by (induction ids arbitrary: st; simp)+

lemma versionsOf_loadPrefixes:
  "distinct ids \<Longrightarrow> i \<in> set ids \<Longrightarrow> i \<noteq> [] \<Longrightarrow>
     versionsOf (loadPrefixes e ids st) i = sort_desc (localVersions e st i)"
proof (induction ids arbitrary: st)
  case Nil
  then show ?case by simp
next
  case (Cons j ids)
  show ?case
  proof (cases "i = j")
    case True
    then have "j \<notin> set ids" "j \<noteq> []"
      using Cons.prems by auto
    then show ?thesis
      using True by (simp add: versionsOf_loadPrefixes_other versionsOf_discoverPrefix)
  next
    case False
    then have "i \<in> set ids" "distinct ids"
      using Cons.prems by auto
    then show ?thesis
      using Cons.IH Cons.prems(3) by simp
  qed
qed

lemma versionsOf_log_info [simp]: "versionsOf (log_info m st) i = versionsOf st i"
  by (simp add: versionsOf_def log_info_def)

lemma disk_VersionsManager: "disk (VersionsManager e dirName url basePath d) = d"
  by (simp add: VersionsManager_def Let_def mkpath_def log_info_def split: option.splits)

text \<open>
  The constructor runs the scan once for every prefix of the local index with a non-empty
  identifier, each time on a prefix it has just created: the version list it leaves is
  the descending sort of the accepted directories, read off the directory tree alone.
\<close>

lemma startup_versions:
  assumes "i \<in> set (keys (index (VersionsManager e dirName url basePath d)))" and "i \<noteq> []"
  shows "versionsOf (VersionsManager e dirName url basePath d) i =
           sort_desc (filter
             (\<lambda>v. case d (localIndexPath (arg2 (arg2 (arg2 basePath dirName) ''versions'') i) v) of
                     None \<Rightarrow> False
                   | Some content \<Rightarrow> vi_id (VersionIndex (toObject (fromJson e content))) = v)
             (entryList e (arg2 (arg2 (arg2 basePath dirName) ''versions'') i)))"
proof -
  let ?st0 = "mkpath (arg2 (arg2 basePath dirName) ''versions'')
     \<lparr>storeUrl = url, dataPath = arg2 basePath dirName,
      versionsPath = arg2 (arg2 basePath dirName) ''versions'',
      indexPath = arg2 (arg2 (arg2 basePath dirName) ''versions'') ''prefixes.json'',
      index = [], prefixes = [], prefixFetchQueue = [],
      fetchingPrefixes = False, fetchingVersionIndexes = False, disk = d, events = []\<rparr>"
  let ?st1 = "case disk ?st0 (arg2 (arg2 (arg2 basePath dirName) ''versions'') ''prefixes.json'') of
        Some content \<Rightarrow> ?st0\<lparr>index := PrefixesIndex e (toObject (fromJson e content))\<rparr>
      | None \<Rightarrow> log_info ''Default version index have been created'' ?st0"
  have m: "VersionsManager e dirName url basePath d =
      log_info (''Initialized with '' @
          number (length (keys (index (loadPrefixes e (keys (index ?st1)) ?st1)))) @
          '' prefix(es)'')
        (loadPrefixes e (keys (index ?st1)) ?st1)"
    unfolding VersionsManager_def Let_def ..
  have f: "disk ?st1 = d" "versionsPath ?st1 = arg2 (arg2 basePath dirName) ''versions''"
    by (simp_all add: mkpath_def log_info_def split: option.splits)
  have k: "i \<in> set (keys (index ?st1))"
    using assms(1) unfolding m by (simp add: log_info_def)
  have "versionsOf (VersionsManager e dirName url basePath d) i =
      sort_desc (localVersions e ?st1 i)"
    unfolding m using k assms(2) by (simp add: versionsOf_loadPrefixes keys_def)
  then show ?thesis
    unfolding localVersions_def isLocalVersion_def f .
qed

text \<open>
  C6: discovery, as the constructor runs it for a prefix, gives the same version list
  when it is run again over an unchanged tree: the second run, on the state the first
  has left, ends with the list of the first, which is the descending sort of the accepted
  version directories. The scan writes nothing to the disk, so a manager constructed
  over the disk a first construction has left finds the same versions for every prefix.
\<close>

theorem discovery_idempotent:
  "versionsOf (discoverPrefix e i about' (discoverPrefix e i about st)) i =
     versionsOf (discoverPrefix e i about st) i
   \<and> versionsOf (discoverPrefix e i about st) i = sort_desc (localVersions e st i)
   \<and> sorted_desc (versionsOf (discoverPrefix e i about' (discoverPrefix e i about st)) i)
   \<and> disk (discoverPrefix e i about st) = disk st
   \<and> disk (VersionsManager e dirName url basePath d) = d
   \<and> versionsOf (VersionsManager e dirName url basePath
         (disk (VersionsManager e dirName url basePath d))) j =
       versionsOf (VersionsManager e dirName url basePath d) j"
  by (simp add: versionsOf_discoverPrefix disk_VersionsManager)

theorem discovery_idempotent_witness:
  "versionsOf (discoverPrefix (tree_env [''1.0'', ''0.9'', ''0.8'']) ''release'' ''Releases''
      tree_state) ''release'' = [''0.9'', ''0.8'']
   \<and> versionsOf (discoverPrefix (tree_env [''1.0'', ''0.9'', ''0.8'']) ''release'' ''Releases''
       (discoverPrefix (tree_env [''1.0'', ''0.9'', ''0.8'']) ''release'' ''Releases''
          tree_state)) ''release'' = [''0.9'', ''0.8'']"
  using discovery_idempotent [of "tree_env [''1.0'', ''0.9'', ''0.8'']" "''release''"
      "''Releases''" "''Releases''" tree_state]
  by (simp add: tree_localVersions sort_desc_def)

end
